theory Spec2Isabelle
  imports Main "HOL-Library.Char_ord" "HOL-Library.List_Lexorder"
begin

section \<open>Values that cross the bridge\<close>

text \<open>
  \<^verbatim>\<open>QVariant\<close>, restricted to what a JSON document decodes to and what
  \<^verbatim>\<open>enqueueJSCall\<close> packs. A number is carried as the C++ \<^verbatim>\<open>int\<close> it reads
  as; a \<^verbatim>\<open>QVariantMap\<close> is an association list with one value per key, in key order.
\<close>

datatype variant =
    VInvalid
  | VBool bool
  | VInt int
  | VString string
  | VList "variant list"
  | VMap "(string \<times> variant) list"

text \<open>\<^verbatim>\<open>QVariant::toList()\<close>: the list of a list variant, an empty list otherwise.\<close>

fun toList :: "variant \<Rightarrow> variant list" where
  "toList (VList xs) = xs"
| "toList _ = []"

text \<open>
  \<^verbatim>\<open>QString::toLongLong()\<close> in base 10: surrounding white space is ignored; what
  remains is an optional sign and decimal digits that fit 64 bits. The result is 0 when the
  conversion fails.
\<close>

definition is_space :: "char \<Rightarrow> bool" where
  "is_space c = ((of_char c :: nat) = 32 \<or> (9 \<le> (of_char c :: nat) \<and> (of_char c :: nat) \<le> 13))"

definition trimmed :: "string \<Rightarrow> string" where
  "trimmed s = rev (dropWhile is_space (rev (dropWhile is_space s)))"

fun parse_digits :: "string \<Rightarrow> int \<Rightarrow> int option" where
  "parse_digits [] acc = Some acc"
| "parse_digits (c # cs) acc =
     (if 48 \<le> (of_char c :: nat) \<and> (of_char c :: nat) \<le> 57
      then parse_digits cs (10 * acc + (int (of_char c) - 48))
      else None)"

definition string_toLongLong :: "string \<Rightarrow> int" where
  "string_toLongLong s =
     (let (neg, ds) =
            (case trimmed s of
               [] \<Rightarrow> (False, [])
             | c # cs \<Rightarrow>
                 if c = CHR ''-'' then (True, cs)
                 else if c = CHR ''+'' then (False, cs)
                 else (False, c # cs))
      in case ds of
           [] \<Rightarrow> 0
         | _ \<Rightarrow>
           (case parse_digits ds 0 of
              None \<Rightarrow> 0
            | Some n \<Rightarrow>
                (let v = (if neg then - n else n)
                 in if - (2 ^ 63) \<le> v \<and> v < 2 ^ 63 then v else 0)))"

text \<open>The conversion of a \<^verbatim>\<open>qlonglong\<close> to \<^verbatim>\<open>int\<close>: the low 32 bits, signed.\<close>

definition narrow_int :: "int \<Rightarrow> int" where
  "narrow_int v = (v + 2 ^ 31) mod 2 ^ 32 - 2 ^ 31"

text \<open>
  \<^verbatim>\<open>QVariant::toInt()\<close>: a string converts through \<^verbatim>\<open>toLongLong\<close> and is narrowed;
  the result is 0 for every variant that does not convert.
\<close>

fun toInt :: "variant \<Rightarrow> int" where
  "toInt (VInt n) = n"
| "toInt (VBool b) = (if b then 1 else 0)"
| "toInt (VString s) = narrow_int (string_toLongLong s)"
| "toInt _ = 0"

text \<open>
  \<^verbatim>\<open>QJsonDocument\<close>: null, an array or an object. \<^verbatim>\<open>doc.toVariant().toList()\<close>
  of an array document is the list of its elements.
\<close>

datatype json_doc =
    DocNull
  | DocArray "variant list"
  | DocObject "(string \<times> variant) list"

fun isNull :: "json_doc \<Rightarrow> bool" where
  "isNull DocNull = True"
| "isNull _ = False"

fun isArray :: "json_doc \<Rightarrow> bool" where
  "isArray (DocArray _) = True"
| "isArray _ = False"

fun toVariant :: "json_doc \<Rightarrow> variant" where
  "toVariant DocNull = VInvalid"
| "toVariant (DocArray xs) = VList xs"
| "toVariant (DocObject kvs) = VMap kvs"

section \<open>Objects\<close>

text \<open>\<^verbatim>\<open>ReactModuleMethod\<close>: opaque to the bridge, which only invokes it.\<close>

datatype module_method = ModuleMethod (method_name: string)

text \<open>
  Modelled from the spec: \<^verbatim>\<open>ReactModuleData\<close> (reactmoduledata.h/.cpp are not part of
  the sources). A module descriptor has its integer id, its name, its serialized info and
  its exported methods indexed 0..N-1. The id is the one the constructor assigned; the
  model takes it as part of the data.
\<close>

datatype module_data =
  ModuleData (md_id: int) (md_name: string) (md_info: variant) (md_methods: "module_method list")

text \<open>
  Modelled from the spec: \<^verbatim>\<open>ReactModuleData::method(int)\<close>, the method at an index, or
  a null pointer (\<open>None\<close>) when the index is not one of 0..N-1 (named \<open>method_of\<close> here).
\<close>

definition method_of :: "module_data \<Rightarrow> int \<Rightarrow> module_method option" where
  "method_of md i =
     (if 0 \<le> i \<and> i < int (length (md_methods md)) then Some (md_methods md ! nat i) else None)"

text \<open>
  A \<^verbatim>\<open>QObject\<close> that a module list holds: its class name, and the descriptor that
  \<^verbatim>\<open>new ReactModuleData(o)\<close> builds for it when
  \<^verbatim>\<open>qobject_cast<ReactModuleInterface*>(o)\<close> succeeds (\<open>None\<close> when the cast fails).
\<close>

datatype qobject = QObject (qobj_class: string) (qobj_module: "module_data option")

text \<open>A \<^verbatim>\<open>ReactExecutor\<close> instance: its class name and its address.\<close>

datatype executor = Executor (exec_class: string) (exec_addr: nat)

section \<open>The registry: \<^verbatim>\<open>QMap<int, ReactModuleData*>\<close>\<close>

text \<open>
  A \<^verbatim>\<open>QMap\<close> keeps one value per key, in key order. A value is a pointer:
  \<open>None\<close> is the null pointer.
\<close>

type_synonym 'v qmap = "(int \<times> 'v) list"

text \<open>
  \<^verbatim>\<open>QMap::insert\<close>, for any ordered key type (the registry's \<^verbatim>\<open>int\<close>, a
  \<^verbatim>\<open>QVariantMap\<close>'s \<^verbatim>\<open>QString\<close>): replaces the value of a key that is present.
\<close>

fun qmap_insert :: "'k::linorder \<Rightarrow> 'v \<Rightarrow> ('k \<times> 'v) list \<Rightarrow> ('k \<times> 'v) list" where
  "qmap_insert k v [] = [(k, v)]"
| "qmap_insert k v ((k', v') # m) =
     (if k < k' then (k, v) # (k', v') # m
      else if k = k' then (k, v) # m
      else (k', v') # qmap_insert k v m)"

text \<open>
  The non-const \<^verbatim>\<open>QMap::operator[]\<close>: the value of the key; when the key is absent, a
  default-constructed value is inserted under it and returned.
\<close>

definition qmap_index :: "int \<Rightarrow> 'v \<Rightarrow> 'v qmap \<Rightarrow> 'v \<times> 'v qmap" where
  "qmap_index k dflt m =
     (case map_of m k of
        Some v \<Rightarrow> (v, m)
      | None \<Rightarrow> (dflt, qmap_insert k dflt m))"

text \<open>\<^verbatim>\<open>QMap::values()\<close>, in key order.\<close>

definition qmap_values :: "'v qmap \<Rightarrow> 'v list" where
  "qmap_values m = map snd m"

section \<open>The bridge\<close>

text \<open>The two completion lambdas handed to \<^verbatim>\<open>executeJSCall\<close>.\<close>

datatype callback =
    ProcessResult
  | ProcessResultThenReady

text \<open>The two lambdas handed to \<^verbatim>\<open>QTimer::singleShot\<close>.\<close>

datatype deferred =
    FlushQueue
  | RunApplicationScript

text \<open>What the bridge does to its collaborators, in the order it does it.\<close>

datatype effect =
    Warning "string list"
  | Critical "string list"
  | ReadyChanged
  | DeleteLater executor
  | ConnectExecutor executor string string
  | ExecutorInit executor
  | InjectJson executor string variant
  | ExecuteJSCall executor string "variant list" callback
  | ExecuteApplicationScript executor qobject string
  | SingleShot nat deferred
  | SetScriptUrl qobject string
  | ConnectObject qobject string string
  | SetBridge qobject
  | DeleteModule module_data
  | LoadSource qobject nat
  | Invoke module_data module_method "variant list"

text \<open>
  \<^verbatim>\<open>ReactBridgePrivate\<close>, followed by what the bridge has sent out: the effects so far,
  the single-shot timers that have not fired and the script calls that have not completed.
  The getters and setters of \<^verbatim>\<open>ReactBridge\<close> are selections and updates of this record;
  \<^verbatim>\<open>executeSourceCode\<close> (empty) and \<^verbatim>\<open>sourcesLoadFailed\<close> (the red box) are left out.
\<close>

record bridge =
  ready :: bool
  executorName :: string
  executor :: "executor option"
  qmlEngine :: "nat option"
  visualParent :: "nat option"
  redbox :: "nat option"
  nam :: "nat option"
  uiManager :: "qobject option"
  imageLoader :: "qobject option"
  sourceCode :: "qobject option"
  eventDispatcher :: "nat option"
  bundleUrl :: string
  pluginsPath :: string
  modules :: "module_data option qmap"
  trace :: "effect list"
  timers :: "deferred list"
  calls :: "(executor \<times> callback) list"

text \<open>What ends the process: an index out of a \<^verbatim>\<open>QList\<close>'s range, a null pointer used.\<close>

datatype crash = IndexOutOfRange | NullDereference

definition emit :: "effect \<Rightarrow> bridge \<Rightarrow> bridge" where
  "emit e s = s\<lparr>trace := trace s @ [e]\<rparr>"

text \<open>\<^verbatim>\<open>QList::operator[]\<close>: the index must be in range.\<close>

definition at :: "'a list \<Rightarrow> nat \<Rightarrow> crash + 'a" where
  "at xs i = (if i < length xs then Inr (xs ! i) else Inl IndexOutOfRange)"

definition and_then :: "crash + 'a \<Rightarrow> ('a \<Rightarrow> crash + 'b) \<Rightarrow> crash + 'b" where
  "and_then r f = (case r of Inl e \<Rightarrow> Inl e | Inr x \<Rightarrow> f x)"

subsection \<open>\<^verbatim>\<open>ReactBridge::processResult\<close>\<close>

text \<open>
  Modelled from the spec: the enumerators \<^verbatim>\<open>FieldRequestModuleIDs\<close>,
  \<^verbatim>\<open>FieldMethodIDs\<close> and \<^verbatim>\<open>FieldParams\<close> of reactbridge.h (not part of the
  sources): the positions of the three sequences in the batch, in the order the spec gives
  them.
\<close>

definition FieldRequestModuleIDs :: nat where "FieldRequestModuleIDs = 0"
definition FieldMethodIDs :: nat where "FieldMethodIDs = 1"
definition FieldParams :: nat where "FieldParams = 2"

text \<open>One round of the loop body, at index \<open>i < moduleIDs.size()\<close>.\<close>

definition dispatch_entry ::
    "variant list \<Rightarrow> variant list \<Rightarrow> variant list \<Rightarrow> nat \<Rightarrow> bridge \<Rightarrow> crash + bridge" where
  "dispatch_entry moduleIDs methodIDs paramArrays i s =
     and_then (at moduleIDs i) (\<lambda>mid.
       let (moduleData, ms) = qmap_index (toInt mid) None (modules s);
           s1 = s\<lparr>modules := ms\<rparr>
       in case moduleData of
            None \<Rightarrow> Inr (emit (Critical [''Could not find referenced module'']) s1)
          | Some md \<Rightarrow>
              and_then (at methodIDs i) (\<lambda>mth.
                case method_of md (toInt mth) of
                  None \<Rightarrow> Inr (emit (Critical [''Request for unsupported method'']) s1)
                | Some m \<Rightarrow>
                    and_then (at paramArrays i) (\<lambda>p.
                      Inr (emit (Invoke md m (toList p)) s1))))"

function dispatch_loop ::
    "variant list \<Rightarrow> variant list \<Rightarrow> variant list \<Rightarrow> nat \<Rightarrow> bridge \<Rightarrow> crash + bridge" where
  "dispatch_loop moduleIDs methodIDs paramArrays i s =
     (if i < length moduleIDs
      then and_then (dispatch_entry moduleIDs methodIDs paramArrays i s)
             (dispatch_loop moduleIDs methodIDs paramArrays (i + 1))
      else Inr s)"
  by pat_completeness auto
termination
  by (relation "measure (\<lambda>(moduleIDs, methodIDs, paramArrays, i, s). length moduleIDs - i)") auto

declare dispatch_loop.simps [simp del]

definition processResult :: "json_doc \<Rightarrow> bridge \<Rightarrow> crash + bridge" where
  "processResult doc s =
     (if isNull doc then Inr s
      else if \<not> isArray doc
      then Inr (emit (Critical [''Returned document from executor in unexpected form'']) s)
      else
        let requests = toList (toVariant doc)
        in and_then (at requests FieldRequestModuleIDs) (\<lambda>r0.
           and_then (at requests FieldMethodIDs) (\<lambda>r1.
           and_then (at requests FieldParams) (\<lambda>r2.
             dispatch_loop (toList r0) (toList r1) (toList r2) 0 s))))"

subsection \<open>Lifecycle\<close>

text \<open>\<^verbatim>\<open>ReactBridge::setReady\<close>\<close>

definition setReady :: "bool \<Rightarrow> bridge \<Rightarrow> bridge" where
  "setReady r s = (if ready s = r then s else emit ReadyChanged (s\<lparr>ready := r\<rparr>))"

text \<open>
  What \<^verbatim>\<open>metaObjectForType(t)->newInstance(...)\<close> under
  \<^verbatim>\<open>qobject_cast<ReactExecutor*>\<close> comes to: the type has no meta object (the call
  goes through a null pointer), the instance is null or not an executor, or an executor.
\<close>

datatype new_instance = NoMetaObject | NotAnExecutor | NewExecutor executor

text \<open>What \<^verbatim>\<open>QPluginLoader::instance()\<close> and the cast to \<^verbatim>\<open>ReactModuleLoader*\<close> give.\<close>

datatype plugin = NoInstance string | NotALoader | Loader "qobject list"

text \<open>
  What one run of \<^verbatim>\<open>init()\<close> or \<^verbatim>\<open>reload()\<close> finds outside the bridge: the meta
  type registry, the objects its \<^verbatim>\<open>new\<close> expressions construct (by class name), the
  modules of \<^verbatim>\<open>UbuntuComponentsLoader\<close>, and the plugin directory.
\<close>

record environment =
  metaType :: "string \<Rightarrow> nat"
  instantiate :: "nat \<Rightarrow> new_instance"
  netExecutor :: executor
  construct :: "string \<Rightarrow> qobject"
  availableModules :: "qobject list"
  entryList :: "string \<Rightarrow> string list"
  pluginInstance :: "string \<Rightarrow> string \<Rightarrow> plugin"

text \<open>\<^verbatim>\<open>QMetaType::UnknownType\<close>\<close>

definition UnknownType :: nat where "UnknownType = 0"

text \<open>\<^verbatim>\<open>ReactBridge::setupExecutor\<close>\<close>

definition setupExecutor :: "environment \<Rightarrow> bridge \<Rightarrow> crash + bridge" where
  "setupExecutor env s =
     (let executorType = metaType env (executorName s @ ''*'')
      in and_then
           (if executorType \<noteq> UnknownType
            then (case instantiate env executorType of
                    NoMetaObject \<Rightarrow> Inl NullDereference
                  | NotAnExecutor \<Rightarrow> Inr (s\<lparr>executor := None\<rparr>)
                  | NewExecutor e \<Rightarrow> Inr (s\<lparr>executor := Some e\<rparr>))
            else Inr s)
           (\<lambda>s1.
              let (e, s2) =
                    (case executor s1 of
                       None \<Rightarrow>
                         (netExecutor env,
                          (emit (Warning [''void ReactBridge::setupExecutor()'',
                                          ''Could not construct executor named'', executorName s1,
                                          ''constructing default (ReactNetExecutor)'']) s1)
                            \<lparr>executor := Some (netExecutor env)\<rparr>)
                     | Some e \<Rightarrow> (e, s1))
              in Inr (emit (ExecutorInit e)
                        (emit (ConnectExecutor e ''applicationScriptDone()'' ''applicationScriptDone()'')
                           s2))))"

text \<open>\<^verbatim>\<open>ReactBridgePrivate::internalModules\<close>\<close>

definition internalModules :: "environment \<Rightarrow> qobject list" where
  "internalModules env =
     map (construct env)
       [''ReactTiming'', ''ReactAppState'', ''ReactAsyncLocalStorage'', ''ReactNetworking'',
        ''ReactNetInfo'', ''ReactViewManager'', ''ReactRawTextManager'', ''ReactTextManager'',
        ''ReactImageManager'', ''ReactExceptionsManager'']"

text \<open>\<^verbatim>\<open>ReactBridgePrivate::pluginModules\<close>: the loop over the plugin directory.\<close>

fun load_plugins ::
    "environment \<Rightarrow> string \<Rightarrow> string list \<Rightarrow> qobject list \<Rightarrow> bridge \<Rightarrow> qobject list \<times> bridge" where
  "load_plugins env dir [] mods s = (mods, s)"
| "load_plugins env dir (pluginPath # rest) mods s =
     (case pluginInstance env dir pluginPath of
        NoInstance err \<Rightarrow>
          load_plugins env dir rest mods
            (emit (Warning [''Found non-plugin library in plugin path'', pluginPath, err]) s)
      | NotALoader \<Rightarrow>
          load_plugins env dir rest mods
            (emit (Warning [''Cound not find ReactModuleLoader interface'']) s)
      | Loader ms \<Rightarrow> load_plugins env dir rest (mods @ ms) s)"

definition pluginModules :: "environment \<Rightarrow> bridge \<Rightarrow> qobject list \<times> bridge" where
  "pluginModules env s =
     load_plugins env (pluginsPath s) (entryList env (pluginsPath s))
       (availableModules env @
        map (construct env)
          [''UbuntuScrollViewManager'', ''UbuntuNavigatorManager'', ''UbuntuPageManager'',
           ''UbuntuTextFieldManager'', ''UbuntuDatePickerManager''])
       s"

text \<open>\<^verbatim>\<open>ReactBridge::initModules\<close>: the loop over the collected objects.\<close>

fun register_modules :: "qobject list \<Rightarrow> bridge \<Rightarrow> bridge" where
  "register_modules [] s = s"
| "register_modules (ob # obs) s =
     register_modules obs
       (case qobj_module ob of
          Some moduleData \<Rightarrow>
            (let s1 = emit (SetBridge ob) s
             in s1\<lparr>modules := qmap_insert (md_id moduleData) (Some moduleData) (modules s1)\<rparr>)
        | None \<Rightarrow> emit (Warning [''A module loader exported an invalid module'']) s)"

definition initModules :: "environment \<Rightarrow> bridge \<Rightarrow> bridge" where
  "initModules env s =
     (let internal = internalModules env;
          (plugins, s1) = pluginModules env s;
          sc = construct env ''ReactSourceCode'';
          il = construct env ''ReactImageLoader'';
          ui = construct env ''ReactUIManager'';
          s2 = s1\<lparr>sourceCode := Some sc, imageLoader := Some il, uiManager := Some ui\<rparr>;
          s3 = emit (SetScriptUrl sc (bundleUrl s2)) s2;
          s4 = emit (ConnectObject sc ''sourceCodeChanged()'' ''sourcesFinished()'') s3;
          s5 = emit (ConnectObject sc ''loadFailed()'' ''sourcesLoadFailed()'') s4
      in register_modules (internal @ plugins @ [sc, il, ui]) s5)"

text \<open>
  \<^verbatim>\<open>ReactBridge::injectModules\<close>. The loop calls \<^verbatim>\<open>md->name()\<close> on every value of the
  registry, in key order; \<^verbatim>\<open>QVariantMap::insert\<close> keeps the config in the order of the
  module names and replaces the entry of a name that is present.
\<close>

fun moduleConfig_of ::
    "module_data option list \<Rightarrow> (string \<times> variant) list \<Rightarrow> crash + (string \<times> variant) list" where
  "moduleConfig_of [] cfg = Inr cfg"
| "moduleConfig_of (None # mds) cfg = Inl NullDereference"
| "moduleConfig_of (Some md # mds) cfg =
     moduleConfig_of mds (qmap_insert (md_name md) (md_info md) cfg)"

definition injectModules :: "bridge \<Rightarrow> crash + bridge" where
  "injectModules s =
     and_then (moduleConfig_of (qmap_values (modules s)) []) (\<lambda>moduleConfig.
       case executor s of
         None \<Rightarrow> Inl NullDereference
       | Some e \<Rightarrow>
           Inr (emit (InjectJson e ''__fbBatchedBridgeConfig''
                        (VMap [(''remoteModuleConfig'', VMap moduleConfig)])) s))"

text \<open>\<^verbatim>\<open>ReactBridge::loadSource\<close>\<close>

definition loadSource :: "bridge \<Rightarrow> crash + bridge" where
  "loadSource s =
     (case nam s of
        None \<Rightarrow> Inr (emit (Critical [''No QNetworkAccessManager for loading sources'']) s)
      | Some n \<Rightarrow>
          (case sourceCode s of
             None \<Rightarrow> Inl NullDereference
           | Some sc \<Rightarrow> Inr (emit (LoadSource sc n) s)))"

text \<open>\<^verbatim>\<open>ReactBridge::init\<close>\<close>

definition init :: "environment \<Rightarrow> bridge \<Rightarrow> crash + bridge" where
  "init env s =
     and_then (setupExecutor env s) (\<lambda>s1.
     and_then (injectModules (initModules env s1)) loadSource)"

text \<open>\<^verbatim>\<open>ReactBridge::reload\<close>: \<^verbatim>\<open>delete\<close> of a null pointer does nothing.\<close>

fun delete_modules :: "module_data option list \<Rightarrow> bridge \<Rightarrow> bridge" where
  "delete_modules [] s = s"
| "delete_modules (None # mds) s = delete_modules mds s"
| "delete_modules (Some md # mds) s = delete_modules mds (emit (DeleteModule md) s)"

definition reload :: "environment \<Rightarrow> bridge \<Rightarrow> crash + bridge" where
  "reload env s =
     (let s1 = setReady False s
      in case executor s1 of
           None \<Rightarrow> Inl NullDereference
         | Some e \<Rightarrow>
             and_then (setupExecutor env (emit (DeleteLater e) s1)) (\<lambda>s2.
               let s3 = delete_modules (qmap_values (modules s2)) s2;
                   s4 = s3\<lparr>modules := []\<rparr>
               in and_then (injectModules (initModules env s4)) loadSource))"

subsection \<open>Script calls and their completion\<close>

text \<open>
  \<^verbatim>\<open>d_func()->executor->executeJSCall(name, args, callback)\<close>: the call is handed to the
  current executor and its completion lambda waits for the returned document.
\<close>

definition executeJSCall :: "string \<Rightarrow> variant list \<Rightarrow> callback \<Rightarrow> bridge \<Rightarrow> crash + bridge" where
  "executeJSCall name args cb s =
     (case executor s of
        None \<Rightarrow> Inl NullDereference
      | Some e \<Rightarrow> Inr ((emit (ExecuteJSCall e name args cb) s)\<lparr>calls := calls s @ [(e, cb)]\<rparr>))"

text \<open>\<^verbatim>\<open>QTimer::singleShot(msec, lambda)\<close>\<close>

definition singleShot :: "nat \<Rightarrow> deferred \<Rightarrow> bridge \<Rightarrow> bridge" where
  "singleShot msec task s = (emit (SingleShot msec task) s)\<lparr>timers := timers s @ [task]\<rparr>"

text \<open>\<^verbatim>\<open>ReactBridge::enqueueJSCall\<close>\<close>

definition enqueueJSCall :: "string \<Rightarrow> string \<Rightarrow> variant list \<Rightarrow> bridge \<Rightarrow> crash + bridge" where
  "enqueueJSCall module mth args s =
     executeJSCall ''callFunctionReturnFlushedQueue''
       [VString module, VString mth, VList args] ProcessResult s"

text \<open>\<^verbatim>\<open>ReactBridge::invokeAndProcess\<close>\<close>

definition invokeAndProcess :: "string \<Rightarrow> variant list \<Rightarrow> bridge \<Rightarrow> crash + bridge" where
  "invokeAndProcess mth args s = executeJSCall mth args ProcessResult s"

text \<open>\<^verbatim>\<open>ReactBridge::applicationScriptDone\<close>\<close>

definition applicationScriptDone :: "bridge \<Rightarrow> bridge" where
  "applicationScriptDone s = singleShot 0 FlushQueue s"

text \<open>\<^verbatim>\<open>ReactBridge::sourcesFinished\<close>\<close>

definition sourcesFinished :: "bridge \<Rightarrow> bridge" where
  "sourcesFinished s = singleShot 200 RunApplicationScript s"

text \<open>The bodies of the two timer lambdas, run when the timer fires.\<close>

fun run_deferred :: "deferred \<Rightarrow> bridge \<Rightarrow> crash + bridge" where
  "run_deferred FlushQueue s = executeJSCall ''flushedQueue'' [] ProcessResultThenReady s"
| "run_deferred RunApplicationScript s =
     (case executor s of
        None \<Rightarrow> Inl NullDereference
      | Some e \<Rightarrow>
          (case sourceCode s of
             None \<Rightarrow> Inl NullDereference
           | Some sc \<Rightarrow> Inr (emit (ExecuteApplicationScript e sc (bundleUrl s)) s)))"

text \<open>The bodies of the two completion lambdas, run on the returned document.\<close>

fun run_callback :: "callback \<Rightarrow> json_doc \<Rightarrow> bridge \<Rightarrow> crash + bridge" where
  "run_callback ProcessResult doc s = processResult doc s"
| "run_callback ProcessResultThenReady doc s =
     and_then (processResult doc s) (\<lambda>s1. Inr (setReady True s1))"

subsection \<open>The bridge on its event loop\<close>

text \<open>
  What reaches the bridge on its owner thread: calls of its public operations, the signals
  connected to its slots, a timer that fires, a script call that completes with a document.
  A timer fires, and a call completes, once and only while it is waiting; otherwise the
  event changes nothing.
\<close>

datatype event =
    EvInit environment
  | EvReload environment
  | EvEnqueueJSCall string string "variant list"
  | EvInvokeAndProcess string "variant list"
  | EvApplicationScriptDone
  | EvSourcesFinished
  | EvTimerFired deferred
  | EvCallCompleted executor callback json_doc

fun step :: "event \<Rightarrow> bridge \<Rightarrow> crash + bridge" where
  "step (EvInit env) s = init env s"
| "step (EvReload env) s = reload env s"
| "step (EvEnqueueJSCall module mth args) s = enqueueJSCall module mth args s"
| "step (EvInvokeAndProcess mth args) s = invokeAndProcess mth args s"
| "step EvApplicationScriptDone s = Inr (applicationScriptDone s)"
| "step EvSourcesFinished s = Inr (sourcesFinished s)"
| "step (EvTimerFired task) s =
     (if task \<in> set (timers s)
      then run_deferred task (s\<lparr>timers := remove1 task (timers s)\<rparr>)
      else Inr s)"
| "step (EvCallCompleted e cb doc) s =
     (if (e, cb) \<in> set (calls s)
      then run_callback cb doc (s\<lparr>calls := remove1 (e, cb) (calls s)\<rparr>)
      else Inr s)"

fun run :: "event list \<Rightarrow> bridge \<Rightarrow> crash + bridge" where
  "run [] s = Inr s"
| "run (ev # evs) s = and_then (step ev s) (run evs)"

text \<open>
  The bridge as its constructor leaves it: the defaults of \<^verbatim>\<open>ReactBridgePrivate\<close> and a
  new event dispatcher (at the address given).
\<close>

definition new_bridge :: "nat \<Rightarrow> bridge" where
  "new_bridge dispatcher =
     \<lparr>ready = False, executorName = ''ReactNetExecutor'', executor = None, qmlEngine = None,
      visualParent = None, redbox = None, nam = None, uiManager = None, imageLoader = None,
      sourceCode = None, eventDispatcher = Some dispatcher, bundleUrl = [],
      pluginsPath = ''./plugins'', modules = [], trace = [], timers = [], calls = []\<rparr>"

text \<open>The events that begin a new cycle by a reload.\<close>

fun is_reload :: "event \<Rightarrow> bool" where
  "is_reload (EvReload env) = True"
| "is_reload _ = False"

text \<open>
  How often ready goes from false to true along a run of events (a run ends where the
  bridge crashes).
\<close>

fun ready_rises :: "event list \<Rightarrow> bridge \<Rightarrow> nat" where
  "ready_rises [] s = 0"
| "ready_rises (ev # evs) s =
     (case step ev s of
        Inl c \<Rightarrow> 0
      | Inr s' \<Rightarrow> (if \<not> ready s \<and> ready s' then 1 else 0) + ready_rises evs s')"

section \<open>The dispatch contract, in the spec's words\<close>

text \<open>\<open>lookup(moduleID) -> Module | NotFound\<close>: a key that holds a null pointer is not found.\<close>

definition lookup :: "module_data option qmap \<Rightarrow> int \<Rightarrow> module_data option" where
  "lookup reg moduleID = (case map_of reg moduleID of Some (Some md) \<Rightarrow> Some md | _ \<Rightarrow> None)"

text \<open>\<open>resolve(moduleID, methodIndex) -> Method | NotFound\<close>\<close>

definition resolve ::
    "module_data option qmap \<Rightarrow> int \<Rightarrow> int \<Rightarrow> (module_data \<times> module_method) option" where
  "resolve reg moduleID methodIndex =
     (case lookup reg moduleID of
        None \<Rightarrow> None
      | Some md \<Rightarrow>
          (case method_of md methodIndex of None \<Rightarrow> None | Some m \<Rightarrow> Some (md, m)))"

text \<open>
  What one entry of a batch comes to against a registry: the invocation of the resolved
  method with the entry's parameter list, or the report of the miss.
\<close>

definition entry_effect ::
    "module_data option qmap \<Rightarrow> variant \<Rightarrow> variant \<Rightarrow> variant \<Rightarrow> effect" where
  "entry_effect reg mid mth p =
     (case lookup reg (toInt mid) of
        None \<Rightarrow> Critical [''Could not find referenced module'']
      | Some md \<Rightarrow>
          (case method_of md (toInt mth) of
             None \<Rightarrow> Critical [''Request for unsupported method'']
           | Some m \<Rightarrow> Invoke md m (toList p)))"

fun reported :: "effect \<Rightarrow> bool" where
  "reported (Critical msg) = True"
| "reported _ = False"

fun invoked :: "effect \<Rightarrow> bool" where
  "invoked (Invoke md m ps) = True"
| "invoked _ = False"

fun loads_source :: "effect \<Rightarrow> bool" where
  "loads_source (LoadSource sc n) = True"
| "loads_source _ = False"

text \<open>
  Entry \<open>j\<close> reads the method-index sequence only when its module resolves, and the
  parameter sequence only when its method resolves; the reads it makes stay in range.
\<close>

definition reads_in_range ::
    "module_data option qmap \<Rightarrow> variant list \<Rightarrow> variant list \<Rightarrow> variant list \<Rightarrow> nat \<Rightarrow> bool" where
  "reads_in_range reg mids meths ps j =
     (case lookup reg (toInt (mids ! j)) of
        None \<Rightarrow> True
      | Some md \<Rightarrow>
          j < length meths \<and>
          (case method_of md (toInt (meths ! j)) of None \<Rightarrow> True | Some m \<Rightarrow> j < length ps))"

section \<open>What a rebuild constructs\<close>

text \<open>
  The executor \<^verbatim>\<open>setupExecutor\<close> constructs for a name whose meta type is registered: the
  instance made through the meta object, or the default when that is not an executor.
\<close>

definition constructed_executor :: "environment \<Rightarrow> string \<Rightarrow> executor" where
  "constructed_executor env name =
     (case instantiate env (metaType env (name @ ''*'')) of
        NewExecutor e \<Rightarrow> e
      | _ \<Rightarrow> netExecutor env)"

text \<open>
  The registry after the registration loop of \<^verbatim>\<open>initModules\<close> has run over a list of
  objects: each module object is inserted under its id, in list order.
\<close>

fun registered :: "qobject list \<Rightarrow> module_data option qmap \<Rightarrow> module_data option qmap" where
  "registered [] reg = reg"
| "registered (ob # obs) reg =
     registered obs
       (case qobj_module ob of
          Some moduleData \<Rightarrow> qmap_insert (md_id moduleData) (Some moduleData) reg
        | None \<Rightarrow> reg)"

text \<open>
  The list of objects \<^verbatim>\<open>initModules\<close> collects: the internal modules, the plugin
  modules, then the source code provider, the image loader and the UI manager. Of the
  bridge only the plugins path matters.
\<close>

definition collected_modules :: "environment \<Rightarrow> bridge \<Rightarrow> qobject list" where
  "collected_modules env s =
     internalModules env @ fst (pluginModules env s) @
     [construct env ''ReactSourceCode'', construct env ''ReactImageLoader'',
      construct env ''ReactUIManager'']"

text \<open>
  The name and the info of every module of a registry, in the order of the module ids: what
  the config payload is built from.
\<close>

definition config_entries :: "module_data option qmap \<Rightarrow> (string \<times> variant) list" where
  "config_entries reg =
     map (\<lambda>md. (md_name md, md_info md)) (List.map_filter id (qmap_values reg))"

text \<open>The module ids a list of objects brings into the registry.\<close>

definition assigned_ids :: "qobject list \<Rightarrow> int list" where
  "assigned_ids obs = map md_id (List.map_filter qobj_module obs)"

section \<open>Concrete bridges\<close>

text \<open>
  The scenario of the spec: module \<open>A\<close> with two methods and id 0, module \<open>B\<close> with one
  method and id 1.
\<close>

definition moduleA :: module_data where
  "moduleA = ModuleData 0 ''A'' VInvalid [ModuleMethod ''a0'', ModuleMethod ''a1'']"

definition moduleB :: module_data where
  "moduleB = ModuleData 1 ''B'' VInvalid [ModuleMethod ''b0'']"

definition scenario_bridge :: bridge where
  "scenario_bridge =
     (new_bridge 0)\<lparr>executor := Some (Executor ''ReactNetExecutor'' 1),
                    modules := [(0, Some moduleA), (1, Some moduleB)]\<rparr>"

text \<open>
  An environment with no plugins, in which every class the bridge constructs is a module
  with one method; the ids count up from \<open>base\<close> in the order of \<open>module_classes\<close>, and
  a module's info carries \<open>addr\<close>, which tells the modules of one environment from those
  of another. The executor class \<^verbatim>\<open>ReactNetExecutor\<close> is a registered meta type; the
  executors constructed live at \<open>addr\<close> (by name) and \<open>addr + 1\<close> (the default).
\<close>

definition module_classes :: "string list" where
  "module_classes =
     [''ReactTiming'', ''ReactAppState'', ''ReactAsyncLocalStorage'', ''ReactNetworking'',
      ''ReactNetInfo'', ''ReactViewManager'', ''ReactRawTextManager'', ''ReactTextManager'',
      ''ReactImageManager'', ''ReactExceptionsManager'', ''UbuntuScrollViewManager'',
      ''UbuntuNavigatorManager'', ''UbuntuPageManager'', ''UbuntuTextFieldManager'',
      ''UbuntuDatePickerManager'', ''ReactSourceCode'', ''ReactImageLoader'', ''ReactUIManager'']"

fun class_index :: "string \<Rightarrow> string list \<Rightarrow> int" where
  "class_index c [] = 0"
| "class_index c (x # xs) = (if c = x then 0 else 1 + class_index c xs)"

definition example_module :: "int \<Rightarrow> nat \<Rightarrow> string \<Rightarrow> module_data" where
  "example_module base addr c =
     ModuleData (base + class_index c module_classes) c (VInt (int addr)) [ModuleMethod ''m0'']"

definition example_env :: "int \<Rightarrow> nat \<Rightarrow> environment" where
  "example_env base addr =
     \<lparr>metaType = (\<lambda>n. if n = ''ReactNetExecutor*'' then 1024 else 0),
      instantiate = (\<lambda>t. if t = 1024 then NewExecutor (Executor ''ReactNetExecutor'' addr)
                          else NoMetaObject),
      netExecutor = Executor ''ReactNetExecutor'' (addr + 1),
      construct = (\<lambda>c. QObject c (Some (example_module base addr c))),
      availableModules = [],
      entryList = (\<lambda>dir. []),
      pluginInstance = (\<lambda>dir file. NotALoader)\<rparr>"

section \<open>Properties\<close>

subsection \<open>The dispatch loop\<close>

lemmas batch_defs = processResult_def at_def and_then_def FieldRequestModuleIDs_def
          FieldMethodIDs_def FieldParams_def
lemmas entry_defs = dispatch_entry_def at_def and_then_def qmap_index_def emit_def method_of_def
lemmas scenario_defs = scenario_bridge_def new_bridge_def moduleA_def moduleB_def

lemma map_of_qmap_insert: "map_of (qmap_insert k v m) = (map_of m)(k \<mapsto> v)"
  by (induction m) (auto simp: fun_eq_iff)

lemma qmap_index_lookup:
  "fst (qmap_index k None reg) = lookup reg k"
  "lookup (snd (qmap_index k None reg)) = lookup reg"
  by (auto simp: qmap_index_def lookup_def map_of_qmap_insert fun_eq_iff split: option.splits)

lemma dispatch_entry_effect:
  assumes "i < length mids" "reads_in_range (modules s) mids meths ps i"
  shows "dispatch_entry mids meths ps i s =
           Inr (s\<lparr>modules := snd (qmap_index (toInt (mids ! i)) None (modules s)),
                  trace := trace s @ [entry_effect (modules s) (mids ! i) (meths ! i) (ps ! i)]\<rparr>)"
  using assms qmap_index_lookup(1)[of "toInt (mids ! i)" "modules s"]
  by (auto simp: dispatch_entry_def at_def and_then_def emit_def entry_effect_def reads_in_range_def
           split: prod.splits option.splits)

lemma dispatch_loop_effects:
  assumes "\<And>j. i \<le> j \<Longrightarrow> j < length mids \<Longrightarrow> reads_in_range (modules s) mids meths ps j"
  shows "\<exists>reg'. lookup reg' = lookup (modules s) \<and>
           dispatch_loop mids meths ps i s =
             Inr (s\<lparr>modules := reg',
                    trace := trace s @ map (\<lambda>j. entry_effect (modules s) (mids ! j) (meths ! j) (ps ! j))
                                          [i ..< length mids]\<rparr>)"
  using assms
proof (induction mids meths ps i s rule: dispatch_loop.induct)
  case (1 mids meths ps i s)
  show ?case
  proof (cases "i < length mids")
    case False
    then show ?thesis by (auto simp: dispatch_loop.simps intro!: exI[of _ "modules s"])
  next
    case True
    let ?s1 = "s\<lparr>modules := snd (qmap_index (toInt (mids ! i)) None (modules s)),
                  trace := trace s @ [entry_effect (modules s) (mids ! i) (meths ! i) (ps ! i)]\<rparr>"
    have de: "dispatch_entry mids meths ps i s = Inr ?s1"
      using True "1.prems"[of i] by (intro dispatch_entry_effect) auto
    have lk: "lookup (modules ?s1) = lookup (modules s)"
      by (simp add: qmap_index_lookup)
    have rr: "\<And>j. reads_in_range (modules ?s1) mids meths ps j = reads_in_range (modules s) mids meths ps j"
      using lk by (simp add: reads_in_range_def)
    have "\<And>j. i + 1 \<le> j \<Longrightarrow> j < length mids \<Longrightarrow> reads_in_range (modules ?s1) mids meths ps j"
      using "1.prems" rr by simp
    from "1.IH"[OF True, of ?s1, OF this]
    obtain reg' where r: "lookup reg' = lookup (modules ?s1)"
      and d: "dispatch_loop mids meths ps (i + 1) ?s1 =
             Inr (?s1\<lparr>modules := reg',
                    trace := trace ?s1 @ map (\<lambda>j. entry_effect (modules ?s1) (mids ! j) (meths ! j) (ps ! j))
                                          [i + 1 ..< length mids]\<rparr>)"
      by auto
    have ee: "\<And>a b c. entry_effect (modules ?s1) a b c = entry_effect (modules s) a b c"
      using lk by (simp add: entry_effect_def)
    have up: "[i ..< length mids] = i # [i + 1 ..< length mids]"
      using True by (simp add: upt_conv_Cons)
    show ?thesis
      apply (rule exI[of _ reg'])
      apply (subst dispatch_loop.simps)
      using True r lk d ee up
      by (simp add: de and_then_def)
  qed
qed

lemma processResult_effects:
  assumes "\<And>j. j < length mids \<Longrightarrow> reads_in_range (modules s) mids meths ps j"
  shows "\<exists>reg'. lookup reg' = lookup (modules s) \<and>
           processResult (DocArray (VList mids # VList meths # VList ps # rest)) s =
             Inr (s\<lparr>modules := reg',
                    trace := trace s @ map (\<lambda>j. entry_effect (modules s) (mids ! j) (meths ! j) (ps ! j))
                                          [0 ..< length mids]\<rparr>)"
proof -
  have "processResult (DocArray (VList mids # VList meths # VList ps # rest)) s =
          dispatch_loop mids meths ps 0 s"
    by (simp add: processResult_def at_def and_then_def FieldRequestModuleIDs_def
          FieldMethodIDs_def FieldParams_def)
  with dispatch_loop_effects[where i=0 and mids=mids and s=s and meths=meths and ps=ps] assms show ?thesis by simp
qed

lemma at_take: "i < n \<Longrightarrow> at (take n xs) i = at xs i"
  by (simp add: at_def)

lemma dispatch_entry_take:
  "i < n \<Longrightarrow>
   dispatch_entry mids (take n meths) (take n ps) i s = dispatch_entry mids meths ps i s"
  by (auto simp: dispatch_entry_def at_take and_then_def Let_def
           split: prod.splits option.splits sum.splits)

lemma dispatch_loop_take:
  "dispatch_loop mids (take (length mids) meths) (take (length mids) ps) i s =
   dispatch_loop mids meths ps i s"
proof (induction mids meths ps i s rule: dispatch_loop.induct)
  case (1 mids meths ps i s)
  note l = dispatch_loop.simps[of mids "take (length mids) meths" "take (length mids) ps" i s]
  note r = dispatch_loop.simps[of mids meths ps i s]
  show ?case
  proof (cases "i < length mids")
    case False
    with l r show ?thesis by simp
  next
    case True
    have "and_then (dispatch_entry mids meths ps i s)
            (dispatch_loop mids (take (length mids) meths) (take (length mids) ps) (i + 1)) =
          and_then (dispatch_entry mids meths ps i s) (dispatch_loop mids meths ps (i + 1))"
      using "1.IH"[OF True] by (simp add: and_then_def split: sum.splits)
    with l r True show ?thesis by (simp add: dispatch_entry_take)
  qed
qed

lemma reads_in_range_lengths:
  "j < length meths \<Longrightarrow> j < length ps \<Longrightarrow> reads_in_range reg mids meths ps j"
  by (simp add: reads_in_range_def split: option.splits)

subsection \<open>Lifecycle operations\<close>

lemma setReady_fields [simp]:
  "ready (setReady r s) = r"
  "executorName (setReady r s) = executorName s"
  "executor (setReady r s) = executor s"
  "nam (setReady r s) = nam s"
  "sourceCode (setReady r s) = sourceCode s"
  "bundleUrl (setReady r s) = bundleUrl s"
  "pluginsPath (setReady r s) = pluginsPath s"
  "modules (setReady r s) = modules s"
  "timers (setReady r s) = timers s"
  "calls (setReady r s) = calls s"
  "trace (setReady r s) = trace s @ (if ready s = r then [] else [ReadyChanged])"
  by (auto simp: setReady_def emit_def)

lemma setReady_shape: "setReady r s = s\<lparr>ready := r, trace := trace s @ (if ready s = r then [] else [ReadyChanged])\<rparr>"
  by (auto simp: setReady_def emit_def)

lemma setupExecutor_known:
  assumes "metaType env (executorName s @ ''*'') \<noteq> UnknownType"
    and "instantiate env (metaType env (executorName s @ ''*'')) \<noteq> NoMetaObject"
  shows "setupExecutor env s =
           Inr (s\<lparr>executor := Some (constructed_executor env (executorName s)),
                  trace := trace s @
                    (case instantiate env (metaType env (executorName s @ ''*'')) of
                       NotAnExecutor \<Rightarrow>
                         [Warning [''void ReactBridge::setupExecutor()'',
                                   ''Could not construct executor named'', executorName s,
                                   ''constructing default (ReactNetExecutor)'']]
                     | _ \<Rightarrow> []) @
                    [ConnectExecutor (constructed_executor env (executorName s))
                       ''applicationScriptDone()'' ''applicationScriptDone()'',
                     ExecutorInit (constructed_executor env (executorName s))]\<rparr>)"
  using assms
  by (cases "instantiate env (metaType env (executorName s @ ''*''))")
     (simp_all add: setupExecutor_def and_then_def emit_def constructed_executor_def)

lemma setupExecutor_unknown:
  assumes "metaType env (executorName s @ ''*'') = UnknownType"
  shows "setupExecutor env s =
           (case executor s of
              Some e \<Rightarrow>
                Inr (s\<lparr>trace := trace s @
                       [ConnectExecutor e ''applicationScriptDone()'' ''applicationScriptDone()'',
                        ExecutorInit e]\<rparr>)
            | None \<Rightarrow>
                Inr (s\<lparr>executor := Some (netExecutor env),
                       trace := trace s @
                         [Warning [''void ReactBridge::setupExecutor()'',
                                   ''Could not construct executor named'', executorName s,
                                   ''constructing default (ReactNetExecutor)''],
                          ConnectExecutor (netExecutor env) ''applicationScriptDone()''
                            ''applicationScriptDone()'',
                          ExecutorInit (netExecutor env)]\<rparr>))"
  using assms
  by (simp add: setupExecutor_def and_then_def emit_def split: option.splits)

lemma setupExecutor_shape:
  assumes "setupExecutor env s = Inr s'"
  shows "\<exists>e ws. s' = s\<lparr>executor := Some e, trace := trace s @ ws\<rparr>"
proof (cases "metaType env (executorName s @ ''*'') = UnknownType")
  case True
  show ?thesis
  proof (cases "executor s")
    case None
    with setupExecutor_unknown[OF True] assms show ?thesis by auto
  next
    case (Some e)
    with setupExecutor_unknown[OF True] assms
    have "s' = s\<lparr>executor := Some e, trace := trace s @
                       [ConnectExecutor e ''applicationScriptDone()'' ''applicationScriptDone()'',
                        ExecutorInit e]\<rparr>"
      by simp
    then show ?thesis by blast
  qed
next
  case False
  have "instantiate env (metaType env (executorName s @ ''*'')) \<noteq> NoMetaObject"
    using assms False by (auto simp: setupExecutor_def and_then_def)
  from setupExecutor_known[OF False this] assms show ?thesis by auto
qed

lemma load_plugins_shape:
  "\<exists>ws. snd (load_plugins env dir files mods s) = s\<lparr>trace := trace s @ ws\<rparr> \<and>
        filter loads_source ws = []"
proof (induction files arbitrary: mods s)
  case Nil
  show ?case by (simp add: exI[of _ "[]"])
next
  case (Cons f files)
  show ?case
  proof (cases "pluginInstance env dir f")
    case (NoInstance err)
    from Cons[of mods "emit (Warning [''Found non-plugin library in plugin path'', f, err]) s"]
    show ?thesis using NoInstance by (auto simp: emit_def)
  next
    case NotALoader
    from Cons[of mods "emit (Warning [''Cound not find ReactModuleLoader interface'']) s"]
    show ?thesis using NotALoader by (auto simp: emit_def)
  next
    case (Loader ms)
    from Cons[of "mods @ ms" s] show ?thesis using Loader by auto
  qed
qed

lemma load_plugins_objects:
  "fst (load_plugins env dir files mods s) = fst (load_plugins env dir files mods t)"
  by (induction files arbitrary: mods s t) (auto split: plugin.splits)

lemma pluginModules_shape:
  "\<exists>ws. snd (pluginModules env s) = s\<lparr>trace := trace s @ ws\<rparr> \<and>
        filter loads_source ws = []"
  unfolding pluginModules_def by (rule load_plugins_shape)

lemma collected_modules_cong:
  "pluginsPath s = pluginsPath t \<Longrightarrow> collected_modules env s = collected_modules env t"
  using load_plugins_objects by (simp add: collected_modules_def pluginModules_def)

lemma register_modules_shape:
  "\<exists>ws. register_modules obs s =
          s\<lparr>modules := registered obs (modules s), trace := trace s @ ws\<rparr> \<and>
        filter loads_source ws = []"
proof (induction obs arbitrary: s)
  case Nil
  show ?case by (simp add: exI[of _ "[]"])
next
  case (Cons ob obs)
  show ?case
  proof (cases "qobj_module ob")
    case None
    from Cons[of "emit (Warning [''A module loader exported an invalid module'']) s"]
    show ?thesis using None by (auto simp: emit_def)
  next
    case (Some md)
    from Cons[of "(emit (SetBridge ob) s)\<lparr>modules := qmap_insert (md_id md) (Some md) (modules s)\<rparr>"]
    show ?thesis using Some by (auto simp: emit_def Let_def)
  qed
qed

lemma initModules_shape:
  "\<exists>ws. initModules env s =
          s\<lparr>sourceCode := Some (construct env ''ReactSourceCode''),
            imageLoader := Some (construct env ''ReactImageLoader''),
            uiManager := Some (construct env ''ReactUIManager''),
            modules := registered (collected_modules env s) (modules s),
            trace := trace s @ ws\<rparr> \<and>
        filter loads_source ws = []"
proof -
  obtain plugins s1 where ps: "pluginModules env s = (plugins, s1)"
    by (cases "pluginModules env s")
  from pluginModules_shape[of env s] ps
  obtain ws1 where s1: "s1 = s\<lparr>trace := trace s @ ws1\<rparr>"
    and f1: "filter loads_source ws1 = []"
    by auto
  let ?sc = "construct env ''ReactSourceCode''"
  let ?il = "construct env ''ReactImageLoader''"
  let ?ui = "construct env ''ReactUIManager''"
  let ?s5 = "s\<lparr>sourceCode := Some ?sc, imageLoader := Some ?il, uiManager := Some ?ui,
               trace := trace s @ ws1 @
                 [SetScriptUrl ?sc (bundleUrl s),
                  ConnectObject ?sc ''sourceCodeChanged()'' ''sourcesFinished()'',
                  ConnectObject ?sc ''loadFailed()'' ''sourcesLoadFailed()'']\<rparr>"
  have im: "initModules env s = register_modules (collected_modules env s) ?s5"
    using ps s1 by (simp add: initModules_def collected_modules_def emit_def Let_def)
  from register_modules_shape[of "collected_modules env s" ?s5]
  obtain ws2 where
    "register_modules (collected_modules env s) ?s5 =
       ?s5\<lparr>modules := registered (collected_modules env s) (modules ?s5), trace := trace ?s5 @ ws2\<rparr>"
    and f2: "filter loads_source ws2 = []"
    by blast
  with im f1 show ?thesis by auto
qed

lemma set_qmap_insert: "set (qmap_insert k v m) \<subseteq> insert (k, v) (set m)"
  by (induction m) (auto split: if_splits)

lemma registered_no_null:
  "None \<notin> snd ` set reg \<Longrightarrow> None \<notin> snd ` set (registered obs reg)"
proof (induction obs arbitrary: reg)
  case Nil
  then show ?case by simp
next
  case (Cons ob obs)
  show ?case
  proof (cases "qobj_module ob")
    case None
    with Cons show ?thesis by simp
  next
    case (Some md)
    have "None \<notin> snd ` set (qmap_insert (md_id md) (Some md) reg)"
      using Cons.prems set_qmap_insert[of "md_id md" "Some md" reg] by force
    from Cons.IH[OF this] Some show ?thesis by simp
  qed
qed

lemma keys_qmap_insert:
  "(a, b) \<in> set (qmap_insert k v m) \<Longrightarrow> a = k \<or> a \<in> fst ` set m"
  using set_qmap_insert[of k v m] by force

lemma sorted_qmap_insert:
  "sorted_wrt (<) (map fst m) \<Longrightarrow> sorted_wrt (<) (map fst (qmap_insert k v m))"
proof (induction m)
  case Nil
  show ?case by simp
next
  case (Cons p m)
  obtain k' v' where p: "p = (k', v')" by (cases p)
  from Cons.prems p have lt: "\<forall>x \<in> fst ` set m. k' < x" and s: "sorted_wrt (<) (map fst m)"
    by auto
  show ?case
  proof (cases "k < k'")
    case True
    with lt s p show ?thesis by (auto intro: less_trans)
  next
    case False
    show ?thesis
    proof (cases "k = k'")
      case True
      with lt s p show ?thesis by auto
    next
      case ne: False
      with False have kk: "k' < k" by simp
      have "\<forall>x \<in> fst ` set (qmap_insert k v m). k' < x"
      proof
        fix x assume "x \<in> fst ` set (qmap_insert k v m)"
        then obtain b where "(x, b) \<in> set (qmap_insert k v m)" by auto
        from keys_qmap_insert[OF this] kk lt show "k' < x" by auto
      qed
      with Cons.IH[OF s] False ne p show ?thesis by auto
    qed
  qed
qed

lemma moduleConfig_of_entries:
  assumes "None \<notin> set mds" and "sorted_wrt (<) (map fst cfg)"
  shows "\<exists>cfg'. moduleConfig_of mds cfg = Inr cfg' \<and>
           sorted_wrt (<) (map fst cfg') \<and>
           map_of cfg' =
             map_of cfg ++
             map_of (rev (map (\<lambda>md. (md_name md, md_info md)) (List.map_filter id mds)))"
  using assms
proof (induction mds arbitrary: cfg)
  case Nil
  show ?case using Nil by simp
next
  case (Cons x mds)
  from Cons.prems obtain md where x: "x = Some md" by (cases x) auto
  from Cons.prems have n: "None \<notin> set mds" by auto
  have s: "sorted_wrt (<) (map fst (qmap_insert (md_name md) (md_info md) cfg))"
    by (rule sorted_qmap_insert[OF Cons.prems(2)])
  from Cons.IH[OF n s] obtain cfg' where
    r: "moduleConfig_of mds (qmap_insert (md_name md) (md_info md) cfg) = Inr cfg'"
    and s': "sorted_wrt (<) (map fst cfg')"
    and m: "map_of cfg' =
              map_of (qmap_insert (md_name md) (md_info md) cfg) ++
              map_of (rev (map (\<lambda>md. (md_name md, md_info md)) (List.map_filter id mds)))"
    by blast
  have e: "List.map_filter id (x # mds) = md # List.map_filter id mds"
    by (simp add: x)
  have r': "moduleConfig_of (x # mds) cfg = Inr cfg'"
    using r x by simp
  have "map_of cfg' =
          map_of cfg ++
          map_of (rev (map (\<lambda>md. (md_name md, md_info md)) (List.map_filter id (x # mds))))"
    unfolding m e map_of_qmap_insert
    by (auto simp: fun_eq_iff map_add_def split: option.splits)
  with r' s' show ?case by blast
qed

lemma injectModules_shape:
  assumes "None \<notin> snd ` set (modules s)" and "executor s = Some e"
  shows "\<exists>cfg. injectModules s =
           Inr (s\<lparr>trace := trace s @
                  [InjectJson e ''__fbBatchedBridgeConfig''
                     (VMap [(''remoteModuleConfig'', VMap cfg)])]\<rparr>) \<and>
           sorted_wrt (<) (map fst cfg) \<and>
           map_of cfg = map_of (rev (config_entries (modules s)))"
proof -
  from assms(1) have "None \<notin> set (qmap_values (modules s))"
    by (simp add: qmap_values_def)
  from moduleConfig_of_entries[OF this, of "[]"]
  obtain cfg where "moduleConfig_of (qmap_values (modules s)) [] = Inr cfg"
    and "sorted_wrt (<) (map fst cfg)"
    and "map_of cfg = map_of (rev (config_entries (modules s)))"
    by (auto simp: config_entries_def)
  with assms(2) show ?thesis
    by (auto simp: injectModules_def and_then_def emit_def)
qed

lemma loadSource_shape:
  assumes "sourceCode s = Some sc"
  shows "loadSource s =
           Inr (s\<lparr>trace := trace s @
                  [case nam s of
                     None \<Rightarrow> Critical [''No QNetworkAccessManager for loading sources'']
                   | Some n \<Rightarrow> LoadSource sc n]\<rparr>)"
  using assms by (simp add: loadSource_def emit_def split: option.splits)

lemma delete_modules_shape:
  "delete_modules mds s = s\<lparr>trace := trace s @ map DeleteModule (List.map_filter id mds)\<rparr>"
proof (induction mds arbitrary: s)
  case Nil
  show ?case by simp
next
  case (Cons md mds)
  then show ?case by (cases md) (simp_all add: emit_def)
qed

text \<open>Registration, injection and source loading, as \<open>init\<close> and \<open>reload\<close> run them.\<close>

lemma build_shape:
  assumes "None \<notin> snd ` set (modules s)" and "executor s = Some e"
  shows "\<exists>ws cfg.
           and_then (injectModules (initModules env s)) loadSource =
             Inr (s\<lparr>sourceCode := Some (construct env ''ReactSourceCode''),
                    imageLoader := Some (construct env ''ReactImageLoader''),
                    uiManager := Some (construct env ''ReactUIManager''),
                    modules := registered (collected_modules env s) (modules s),
                    trace := trace s @ ws @
                      [InjectJson e ''__fbBatchedBridgeConfig''
                         (VMap [(''remoteModuleConfig'', VMap cfg)]),
                       case nam s of
                         None \<Rightarrow> Critical [''No QNetworkAccessManager for loading sources'']
                       | Some n \<Rightarrow> LoadSource (construct env ''ReactSourceCode'') n]\<rparr>) \<and>
        filter loads_source ws = [] \<and>
        sorted_wrt (<) (map fst cfg) \<and>
        map_of cfg = map_of (rev (config_entries (registered (collected_modules env s) (modules s))))"
proof -
  from initModules_shape[of env s] obtain ws where
    i: "initModules env s =
          s\<lparr>sourceCode := Some (construct env ''ReactSourceCode''),
            imageLoader := Some (construct env ''ReactImageLoader''),
            uiManager := Some (construct env ''ReactUIManager''),
            modules := registered (collected_modules env s) (modules s),
            trace := trace s @ ws\<rparr>" (is "_ = ?s1")
    and wf: "filter loads_source ws = []"
    by blast
  have "None \<notin> snd ` set (modules ?s1)"
    using registered_no_null[OF assms(1)] by simp
  moreover have "executor ?s1 = Some e" using assms(2) by simp
  ultimately obtain cfg where
    j: "injectModules ?s1 =
          Inr (?s1\<lparr>trace := trace ?s1 @ [InjectJson e ''__fbBatchedBridgeConfig''
                         (VMap [(''remoteModuleConfig'', VMap cfg)])]\<rparr>)"
      (is "_ = Inr ?s2")
    and wc: "sorted_wrt (<) (map fst cfg)"
      "map_of cfg = map_of (rev (config_entries (modules ?s1)))"
    using injectModules_shape[of ?s1 e] by blast
  have l: "loadSource ?s2 =
           Inr (?s2\<lparr>trace := trace ?s2 @
                  [case nam ?s2 of
                     None \<Rightarrow> Critical [''No QNetworkAccessManager for loading sources'']
                   | Some n \<Rightarrow> LoadSource (construct env ''ReactSourceCode'') n]\<rparr>)"
    by (rule loadSource_shape) simp
  show ?thesis
    apply (rule exI[of _ ws], rule exI[of _ cfg])
    using i j l wf wc by (simp add: and_then_def)
qed

lemma reload_shape:
  assumes "executor s = Some e"
    and "setupExecutor env (emit (DeleteLater e) (setReady False s)) = Inr s2"
  shows "\<exists>e' ws cfg.
           executor s2 = Some e' \<and>
           reload env s =
             Inr (s2\<lparr>sourceCode := Some (construct env ''ReactSourceCode''),
                     imageLoader := Some (construct env ''ReactImageLoader''),
                     uiManager := Some (construct env ''ReactUIManager''),
                     modules := registered (collected_modules env s) [],
                     trace := trace s2 @
                       map DeleteModule (List.map_filter id (qmap_values (modules s))) @ ws @
                       [InjectJson e' ''__fbBatchedBridgeConfig''
                         (VMap [(''remoteModuleConfig'', VMap cfg)]),
                        case nam s of
                          None \<Rightarrow> Critical [''No QNetworkAccessManager for loading sources'']
                        | Some n \<Rightarrow> LoadSource (construct env ''ReactSourceCode'') n]\<rparr>) \<and>
        filter loads_source ws = [] \<and>
        sorted_wrt (<) (map fst cfg) \<and>
        map_of cfg = map_of (rev (config_entries (registered (collected_modules env s) [])))"
proof -
  let ?s1 = "emit (DeleteLater e) (setReady False s)"
  from setupExecutor_shape[OF assms(2)] obtain e' ws0 where
    s2: "s2 = ?s1\<lparr>executor := Some e', trace := trace ?s1 @ ws0\<rparr>"
    by blast
  let ?s4 = "(delete_modules (qmap_values (modules s2)) s2)\<lparr>modules := []\<rparr>"
  have m4: "None \<notin> snd ` set (modules ?s4)" by simp
  have e4: "executor ?s4 = Some e'" by (simp add: delete_modules_shape s2)
  from build_shape[OF m4 e4, of env] obtain ws cfg where
    b: "and_then (injectModules (initModules env ?s4)) loadSource =
             Inr (?s4\<lparr>sourceCode := Some (construct env ''ReactSourceCode''),
                    imageLoader := Some (construct env ''ReactImageLoader''),
                    uiManager := Some (construct env ''ReactUIManager''),
                    modules := registered (collected_modules env ?s4) (modules ?s4),
                    trace := trace ?s4 @ ws @
                      [InjectJson e' ''__fbBatchedBridgeConfig''
                         (VMap [(''remoteModuleConfig'', VMap cfg)]),
                       case nam ?s4 of
                         None \<Rightarrow> Critical [''No QNetworkAccessManager for loading sources'']
                       | Some n \<Rightarrow> LoadSource (construct env ''ReactSourceCode'') n]\<rparr>)"
    and wf: "filter loads_source ws = []"
    and wc: "sorted_wrt (<) (map fst cfg)"
      "map_of cfg = map_of (rev (config_entries (registered (collected_modules env ?s4) (modules ?s4))))"
    by blast
  have c: "collected_modules env ?s4 = collected_modules env s"
    by (rule collected_modules_cong) (simp add: delete_modules_shape s2 emit_def)
  have r: "reload env s = and_then (injectModules (initModules env ?s4)) loadSource"
    using assms by (simp add: reload_def and_then_def Let_def)
  have x: "executor s2 = Some e'" by (simp add: s2)
  have wc2: "map_of cfg = map_of (rev (config_entries (registered (collected_modules env s) [])))"
    using wc(2) unfolding c by simp
  show ?thesis
    apply (rule exI[of _ e'], rule exI[of _ ws], rule exI[of _ cfg])
    unfolding r b c
    using x wf wc(1) wc2 by (simp add: delete_modules_shape s2 emit_def)
qed

lemma reload_Inr:
  assumes "reload env s = Inr s'"
  shows "\<exists>e s2. executor s = Some e \<and>
                 setupExecutor env (emit (DeleteLater e) (setReady False s)) = Inr s2"
  using assms
  by (auto simp: reload_def and_then_def Let_def split: option.splits sum.splits)

lemma reload_known:
  assumes "executor s = Some e"
    and "metaType env (executorName s @ ''*'') \<noteq> UnknownType"
    and "instantiate env (metaType env (executorName s @ ''*'')) \<noteq> NoMetaObject"
  shows "\<exists>ws cfg.
           reload env s =
             Inr (s\<lparr>ready := False,
                    executor := Some (constructed_executor env (executorName s)),
                    sourceCode := Some (construct env ''ReactSourceCode''),
                    imageLoader := Some (construct env ''ReactImageLoader''),
                    uiManager := Some (construct env ''ReactUIManager''),
                    modules := registered (collected_modules env s) [],
                    trace := trace s @ (if ready s then [ReadyChanged] else []) @
                      [DeleteLater e] @
                      (case instantiate env (metaType env (executorName s @ ''*'')) of
                         NotAnExecutor \<Rightarrow>
                           [Warning [''void ReactBridge::setupExecutor()'',
                                   ''Could not construct executor named'', executorName s,
                                     ''constructing default (ReactNetExecutor)'']]
                       | _ \<Rightarrow> []) @
                      [ConnectExecutor (constructed_executor env (executorName s))
                         ''applicationScriptDone()'' ''applicationScriptDone()'',
                       ExecutorInit (constructed_executor env (executorName s))] @
                      map DeleteModule (List.map_filter id (qmap_values (modules s))) @ ws @
                      [InjectJson (constructed_executor env (executorName s))
                         ''__fbBatchedBridgeConfig''
                         (VMap [(''remoteModuleConfig'', VMap cfg)]),
                       case nam s of
                         None \<Rightarrow> Critical [''No QNetworkAccessManager for loading sources'']
                       | Some n \<Rightarrow> LoadSource (construct env ''ReactSourceCode'') n]\<rparr>) \<and>
        filter loads_source ws = [] \<and>
        sorted_wrt (<) (map fst cfg) \<and>
        map_of cfg = map_of (rev (config_entries (registered (collected_modules env s) [])))"
proof -
  let ?e' = "constructed_executor env (executorName s)"
  let ?s1' = "emit (DeleteLater e) (setReady False s)"
  have n: "executorName ?s1' = executorName s" by (simp add: emit_def)
  define s2 where
    "s2 = ?s1'\<lparr>executor := Some ?e',
                  trace := trace ?s1' @
                    (case instantiate env (metaType env (executorName s @ ''*'')) of
                       NotAnExecutor \<Rightarrow>
                         [Warning [''void ReactBridge::setupExecutor()'',
                                   ''Could not construct executor named'', executorName s,
                                   ''constructing default (ReactNetExecutor)'']]
                     | _ \<Rightarrow> []) @
                    [ConnectExecutor ?e' ''applicationScriptDone()'' ''applicationScriptDone()'',
                     ExecutorInit ?e']\<rparr>"
  have se: "setupExecutor env ?s1' = Inr s2"
    unfolding s2_def using setupExecutor_known[of env ?s1'] assms(2,3) n
    by (simp cong: new_instance.case_cong)
  from reload_shape[OF assms(1) se] obtain e' ws cfg where
    "executor s2 = Some e'" and
    r: "reload env s =
             Inr (s2\<lparr>sourceCode := Some (construct env ''ReactSourceCode''),
                     imageLoader := Some (construct env ''ReactImageLoader''),
                     uiManager := Some (construct env ''ReactUIManager''),
                     modules := registered (collected_modules env s) [],
                     trace := trace s2 @
                       map DeleteModule (List.map_filter id (qmap_values (modules s))) @ ws @
                       [InjectJson e' ''__fbBatchedBridgeConfig''
                         (VMap [(''remoteModuleConfig'', VMap cfg)]),
                        case nam s of
                          None \<Rightarrow> Critical [''No QNetworkAccessManager for loading sources'']
                        | Some n \<Rightarrow> LoadSource (construct env ''ReactSourceCode'') n]\<rparr>)"
    and wf: "filter loads_source ws = []"
    and wc: "sorted_wrt (<) (map fst cfg)"
      "map_of cfg = map_of (rev (config_entries (registered (collected_modules env s) [])))"
    by blast
  then have e': "e' = ?e'" by (simp add: s2_def)
  show ?thesis
    apply (rule exI[of _ ws], rule exI[of _ cfg])
    unfolding r e'
    using wf wc by (simp add: s2_def emit_def setReady_shape)
qed

lemma reload_unknown:
  assumes "executor s = Some e"
    and "metaType env (executorName s @ ''*'') = UnknownType"
  shows "\<exists>ws cfg.
           reload env s =
             Inr (s\<lparr>ready := False,
                    sourceCode := Some (construct env ''ReactSourceCode''),
                    imageLoader := Some (construct env ''ReactImageLoader''),
                    uiManager := Some (construct env ''ReactUIManager''),
                    modules := registered (collected_modules env s) [],
                    trace := trace s @ (if ready s then [ReadyChanged] else []) @
                      [DeleteLater e,
                       ConnectExecutor e ''applicationScriptDone()'' ''applicationScriptDone()'',
                       ExecutorInit e] @
                      map DeleteModule (List.map_filter id (qmap_values (modules s))) @ ws @
                      [InjectJson e ''__fbBatchedBridgeConfig''
                         (VMap [(''remoteModuleConfig'', VMap cfg)]),
                       case nam s of
                         None \<Rightarrow> Critical [''No QNetworkAccessManager for loading sources'']
                       | Some n \<Rightarrow> LoadSource (construct env ''ReactSourceCode'') n]\<rparr>) \<and>
        filter loads_source ws = [] \<and>
        sorted_wrt (<) (map fst cfg) \<and>
        map_of cfg = map_of (rev (config_entries (registered (collected_modules env s) [])))"
proof -
  let ?s1' = "emit (DeleteLater e) (setReady False s)"
  define s2 where
    "s2 = ?s1'\<lparr>trace := trace ?s1' @
             [ConnectExecutor e ''applicationScriptDone()'' ''applicationScriptDone()'',
              ExecutorInit e]\<rparr>"
  have se: "setupExecutor env ?s1' = Inr s2"
    unfolding s2_def using setupExecutor_unknown[of env ?s1'] assms
    by (simp add: emit_def)
  from reload_shape[OF assms(1) se] obtain e' ws cfg where
    "executor s2 = Some e'" and
    r: "reload env s =
             Inr (s2\<lparr>sourceCode := Some (construct env ''ReactSourceCode''),
                     imageLoader := Some (construct env ''ReactImageLoader''),
                     uiManager := Some (construct env ''ReactUIManager''),
                     modules := registered (collected_modules env s) [],
                     trace := trace s2 @
                       map DeleteModule (List.map_filter id (qmap_values (modules s))) @ ws @
                       [InjectJson e' ''__fbBatchedBridgeConfig''
                         (VMap [(''remoteModuleConfig'', VMap cfg)]),
                        case nam s of
                          None \<Rightarrow> Critical [''No QNetworkAccessManager for loading sources'']
                        | Some n \<Rightarrow> LoadSource (construct env ''ReactSourceCode'') n]\<rparr>)"
    and wf: "filter loads_source ws = []"
    and wc: "sorted_wrt (<) (map fst cfg)"
      "map_of cfg = map_of (rev (config_entries (registered (collected_modules env s) [])))"
    by blast
  then have e': "e' = e" using assms(1) by (simp add: s2_def emit_def)
  show ?thesis
    apply (rule exI[of _ ws], rule exI[of _ cfg])
    unfolding r e'
    using wf wc by (simp add: s2_def emit_def setReady_shape)
qed

lemma init_shape:
  assumes "None \<notin> snd ` set (modules s)"
    and "setupExecutor env s = Inr s1"
  shows "\<exists>e' ws cfg.
           executor s1 = Some e' \<and>
           init env s =
             Inr (s1\<lparr>sourceCode := Some (construct env ''ReactSourceCode''),
                     imageLoader := Some (construct env ''ReactImageLoader''),
                     uiManager := Some (construct env ''ReactUIManager''),
                     modules := registered (collected_modules env s) (modules s),
                     trace := trace s1 @ ws @
                       [InjectJson e' ''__fbBatchedBridgeConfig''
                         (VMap [(''remoteModuleConfig'', VMap cfg)]),
                        case nam s of
                          None \<Rightarrow> Critical [''No QNetworkAccessManager for loading sources'']
                        | Some n \<Rightarrow> LoadSource (construct env ''ReactSourceCode'') n]\<rparr>) \<and>
        filter loads_source ws = [] \<and>
        sorted_wrt (<) (map fst cfg) \<and>
        map_of cfg = map_of (rev (config_entries (registered (collected_modules env s) (modules s))))"
proof -
  from setupExecutor_shape[OF assms(2)] obtain e' ws0 where
    s1: "s1 = s\<lparr>executor := Some e', trace := trace s @ ws0\<rparr>"
    by blast
  have m: "None \<notin> snd ` set (modules s1)" using assms(1) by (simp add: s1)
  have e: "executor s1 = Some e'" by (simp add: s1)
  from build_shape[OF m e, of env] obtain ws cfg where
    b: "and_then (injectModules (initModules env s1)) loadSource =
             Inr (s1\<lparr>sourceCode := Some (construct env ''ReactSourceCode''),
                    imageLoader := Some (construct env ''ReactImageLoader''),
                    uiManager := Some (construct env ''ReactUIManager''),
                    modules := registered (collected_modules env s1) (modules s1),
                    trace := trace s1 @ ws @
                      [InjectJson e' ''__fbBatchedBridgeConfig''
                         (VMap [(''remoteModuleConfig'', VMap cfg)]),
                       case nam s1 of
                         None \<Rightarrow> Critical [''No QNetworkAccessManager for loading sources'']
                       | Some n \<Rightarrow> LoadSource (construct env ''ReactSourceCode'') n]\<rparr>)"
    and wf: "filter loads_source ws = []"
    and wc: "sorted_wrt (<) (map fst cfg)"
      "map_of cfg = map_of (rev (config_entries (registered (collected_modules env s1) (modules s1))))"
    by blast
  have c: "collected_modules env s1 = collected_modules env s"
    by (rule collected_modules_cong) (simp add: s1)
  have i: "init env s = and_then (injectModules (initModules env s1)) loadSource"
    using assms(2) by (simp add: init_def and_then_def)
  have wc2: "map_of cfg =
               map_of (rev (config_entries (registered (collected_modules env s) (modules s))))"
    using wc(2) unfolding c by (simp add: s1)
  show ?thesis
    apply (rule exI[of _ e'], rule exI[of _ ws], rule exI[of _ cfg])
    unfolding i b c
    using e wf wc(1) wc2 by (simp add: s1)
qed


lemma registered_append: "registered (xs @ ys) reg = registered ys (registered xs reg)"
  by (induction xs arbitrary: reg) auto

lemma map_of_registered_other:
  "k \<notin> set (assigned_ids obs) \<Longrightarrow> map_of (registered obs reg) k = map_of reg k"
proof (induction obs arbitrary: reg)
  case Nil
  show ?case by simp
next
  case (Cons ob obs)
  show ?case
  proof (cases "qobj_module ob")
    case None
    with Cons show ?thesis by (simp add: assigned_ids_def)
  next
    case (Some md)
    with Cons.prems have k: "k \<noteq> md_id md" "k \<notin> set (assigned_ids obs)"
      by (simp_all add: assigned_ids_def)
    from Cons.IH[OF k(2)] Some k(1) show ?thesis
      by (simp add: map_of_qmap_insert)
  qed
qed

lemma map_of_registered_last:
  "qobj_module ob = Some md \<Longrightarrow>
   map_of (registered (obs @ [ob]) reg) (md_id md) = Some (Some md)"
  by (simp add: registered_append map_of_qmap_insert)

lemma reload_modules:
  assumes "reload env s = Inr s1"
  shows "modules s1 = registered (collected_modules env s) []"
proof -
  from reload_Inr[OF assms] obtain e s2 where
    e: "executor s = Some e"
    and se: "setupExecutor env (emit (DeleteLater e) (setReady False s)) = Inr s2"
    by blast
  from reload_shape[OF e se] assms show ?thesis by auto
qed

lemma entry_effect_unassigned:
  "map_of reg (toInt mid) = None \<Longrightarrow>
   entry_effect reg mid mth p = Critical [''Could not find referenced module'']"
  by (simp add: entry_effect_def lookup_def)

lemma init_known:
  assumes "None \<notin> snd ` set (modules s)"
    and "metaType env (executorName s @ ''*'') \<noteq> UnknownType"
    and "instantiate env (metaType env (executorName s @ ''*'')) \<noteq> NoMetaObject"
  shows "\<exists>ws. init env s =
           Inr (s\<lparr>executor := Some (constructed_executor env (executorName s)),
                  sourceCode := Some (construct env ''ReactSourceCode''),
                  imageLoader := Some (construct env ''ReactImageLoader''),
                  uiManager := Some (construct env ''ReactUIManager''),
                  modules := registered (collected_modules env s) (modules s),
                  trace := trace s @ ws\<rparr>)"
proof -
  from setupExecutor_known[OF assms(2,3)] obtain ws0 where
    se: "setupExecutor env s =
           Inr (s\<lparr>executor := Some (constructed_executor env (executorName s)),
                  trace := trace s @ ws0\<rparr>)" (is "_ = Inr ?s1")
    by blast
  from init_shape[OF assms(1) se] obtain ws1 where
    "init env s =
             Inr (?s1\<lparr>sourceCode := Some (construct env ''ReactSourceCode''),
                     imageLoader := Some (construct env ''ReactImageLoader''),
                     uiManager := Some (construct env ''ReactUIManager''),
                     modules := registered (collected_modules env s) (modules s),
                     trace := trace ?s1 @ ws1\<rparr>)"
    by blast
  then show ?thesis by auto
qed

subsection \<open>Steps of the event loop\<close>

lemma dispatch_entry_frame:
  assumes "dispatch_entry mids meths ps i s = Inr s'"
  shows "\<exists>reg ws. s' = s\<lparr>modules := reg, trace := trace s @ ws\<rparr>"
proof -
  have "\<exists>reg e. s' = s\<lparr>modules := reg, trace := trace s @ [e]\<rparr>"
    using assms
    by (auto simp: dispatch_entry_def and_then_def emit_def Let_def
             split: sum.splits prod.splits option.splits)
  then show ?thesis by blast
qed

lemma dispatch_loop_frame:
  "dispatch_loop mids meths ps i s = Inr s' \<Longrightarrow>
   \<exists>reg ws. s' = s\<lparr>modules := reg, trace := trace s @ ws\<rparr>"
proof (induction mids meths ps i s rule: dispatch_loop.induct)
  case (1 mids meths ps i s)
  note l = dispatch_loop.simps[of mids meths ps i s]
  show ?case
  proof (cases "i < length mids")
    case False
    with l "1.prems" have "s' = s\<lparr>modules := modules s, trace := trace s @ []\<rparr>" by simp
    then show ?thesis by blast
  next
    case True
    with l "1.prems" obtain s1 where
      d: "dispatch_entry mids meths ps i s = Inr s1"
      and r: "dispatch_loop mids meths ps (i + 1) s1 = Inr s'"
      by (auto simp: and_then_def split: sum.splits)
    from dispatch_entry_frame[OF d] obtain reg1 ws1 where
      s1: "s1 = s\<lparr>modules := reg1, trace := trace s @ ws1\<rparr>" by blast
    from "1.IH"[OF True r] obtain reg ws where
      "s' = s1\<lparr>modules := reg, trace := trace s1 @ ws\<rparr>" by blast
    with s1 have "s' = s\<lparr>modules := reg, trace := trace s @ (ws1 @ ws)\<rparr>" by simp
    then show ?thesis by blast
  qed
qed

lemma processResult_frame:
  assumes "processResult doc s = Inr s'"
  shows "\<exists>reg ws. s' = s\<lparr>modules := reg, trace := trace s @ ws\<rparr>"
proof (cases "isNull doc")
  case True
  with assms have "s' = s\<lparr>modules := modules s, trace := trace s @ []\<rparr>"
    by (simp add: processResult_def)
  then show ?thesis by blast
next
  case False
  show ?thesis
  proof (cases "isArray doc")
    case False
    with \<open>\<not> isNull doc\<close> assms
    have "s' = s\<lparr>modules := modules s,
                  trace := trace s @ [Critical [''Returned document from executor in unexpected form'']]\<rparr>"
      by (simp add: processResult_def emit_def)
    then show ?thesis by blast
  next
    case True
    with \<open>\<not> isNull doc\<close> assms obtain a b c where
      "dispatch_loop a b c 0 s = Inr s'"
      by (auto simp: processResult_def and_then_def Let_def split: sum.splits)
    then show ?thesis by (rule dispatch_loop_frame)
  qed
qed

lemma processResult_fields:
  assumes "processResult doc s = Inr s'"
  shows "ready s' = ready s" "timers s' = timers s" "calls s' = calls s"
    "executor s' = executor s"
  using processResult_frame[OF assms] by auto

lemma init_fields:
  assumes "init env s = Inr s'"
  shows "ready s' = ready s" "timers s' = timers s" "calls s' = calls s"
proof -
  from assms obtain s1 s2 where
    a: "setupExecutor env s = Inr s1"
    and b: "injectModules (initModules env s1) = Inr s2"
    and c: "loadSource s2 = Inr s'"
    by (auto simp: init_def and_then_def split: sum.splits)
  from setupExecutor_shape[OF a] obtain e ws where
    s1: "s1 = s\<lparr>executor := Some e, trace := trace s @ ws\<rparr>" by blast
  from initModules_shape[of env s1] obtain ws1 where
    i: "initModules env s1 =
          s1\<lparr>sourceCode := Some (construct env ''ReactSourceCode''),
            imageLoader := Some (construct env ''ReactImageLoader''),
            uiManager := Some (construct env ''ReactUIManager''),
            modules := registered (collected_modules env s1) (modules s1),
            trace := trace s1 @ ws1\<rparr>" by blast
  from b have s2: "\<exists>x. s2 = (initModules env s1)\<lparr>trace := x\<rparr>"
    by (auto simp: injectModules_def and_then_def emit_def split: sum.splits option.splits)
  from c have s': "\<exists>x. s' = s2\<lparr>trace := x\<rparr>"
    by (auto simp: loadSource_def emit_def split: option.splits)
  from s1 i s2 s' show "ready s' = ready s" "timers s' = timers s" "calls s' = calls s"
    by auto
qed

lemma reload_fields:
  assumes "reload env s = Inr s'"
  shows "\<not> ready s'" "timers s' = timers s" "calls s' = calls s"
proof -
  from reload_Inr[OF assms] obtain e s2 where
    e: "executor s = Some e"
    and se: "setupExecutor env (emit (DeleteLater e) (setReady False s)) = Inr s2"
    by blast
  from setupExecutor_shape[OF se] obtain e' ws where
    s2: "s2 = (emit (DeleteLater e) (setReady False s))\<lparr>executor := Some e', trace :=
              trace (emit (DeleteLater e) (setReady False s)) @ ws\<rparr>" by blast
  from reload_shape[OF e se] assms s2
  show "\<not> ready s'" "timers s' = timers s" "calls s' = calls s"
    by (auto simp: emit_def)
qed

lemma executeJSCall_fields:
  assumes "executeJSCall name args cb s = Inr s'"
  shows "ready s' = ready s" "timers s' = timers s"
    "\<exists>e. executor s = Some e \<and> calls s' = calls s @ [(e, cb)]"
  using assms by (auto simp: executeJSCall_def emit_def split: option.splits)

lemma count_list_remove1: "count_list (remove1 y xs) x \<le> count_list xs x"
  by (induction xs) auto

lemma step_ready_rise:
  assumes "step ev s = Inr s'" and "\<not> ready s" and "ready s'"
  shows "\<exists>e doc s1. ev = EvCallCompleted e ProcessResultThenReady doc \<and>
           (e, ProcessResultThenReady) \<in> set (calls s) \<and>
           processResult doc (s\<lparr>calls := remove1 (e, ProcessResultThenReady) (calls s)\<rparr>) = Inr s1 \<and>
           s' = setReady True s1"
proof (cases ev)
  case (EvInit env)
  with assms init_fields(1)[of env s s'] show ?thesis by simp
next
  case (EvReload env)
  with assms reload_fields(1)[of env s s'] show ?thesis by simp
next
  case (EvEnqueueJSCall m mth args)
  with assms executeJSCall_fields(1)[of _ _ ProcessResult s s'] show ?thesis
    by (simp add: enqueueJSCall_def)
next
  case (EvInvokeAndProcess mth args)
  with assms executeJSCall_fields(1)[of _ _ ProcessResult s s'] show ?thesis
    by (simp add: invokeAndProcess_def)
next
  case EvApplicationScriptDone
  with assms show ?thesis by (auto simp: applicationScriptDone_def singleShot_def emit_def)
next
  case EvSourcesFinished
  with assms show ?thesis by (auto simp: sourcesFinished_def singleShot_def emit_def)
next
  case (EvTimerFired task)
  show ?thesis
  proof (cases task)
    case FlushQueue
    with EvTimerFired assms
      executeJSCall_fields(1)[of "''flushedQueue''" "[]" ProcessResultThenReady
        "s\<lparr>timers := remove1 task (timers s)\<rparr>" s']
    show ?thesis by (auto split: if_splits)
  next
    case RunApplicationScript
    with EvTimerFired assms show ?thesis
      by (auto simp: emit_def split: if_splits option.splits)
  qed
next
  case (EvCallCompleted e cb doc)
  show ?thesis
  proof (cases cb)
    case ProcessResult
    with EvCallCompleted assms
      processResult_fields(1)[of doc "s\<lparr>calls := remove1 (e, cb) (calls s)\<rparr>" s']
    show ?thesis by (auto split: if_splits)
  next
    case ProcessResultThenReady
    with EvCallCompleted assms show ?thesis
      by (auto simp: and_then_def split: if_splits sum.splits)
  qed
qed

lemma step_new_drain_call:
  assumes "step ev s = Inr s'"
    and "count_list (calls s) (e, ProcessResultThenReady) <
         count_list (calls s') (e, ProcessResultThenReady)"
  shows "ev = EvTimerFired FlushQueue \<and> FlushQueue \<in> set (timers s) \<and> executor s = Some e"
proof (cases ev)
  case (EvInit env)
  with assms init_fields(3)[of env s s'] show ?thesis by simp
next
  case (EvReload env)
  with assms reload_fields(3)[of env s s'] show ?thesis by simp
next
  case (EvEnqueueJSCall m mth args)
  with assms(1) have "executeJSCall ''callFunctionReturnFlushedQueue''
          [VString m, VString mth, VList args] ProcessResult s = Inr s'"
    by (simp add: enqueueJSCall_def)
  from executeJSCall_fields(3)[OF this] assms(2) show ?thesis by auto
next
  case (EvInvokeAndProcess mth args)
  with assms(1) have "executeJSCall mth args ProcessResult s = Inr s'"
    by (simp add: invokeAndProcess_def)
  from executeJSCall_fields(3)[OF this] assms(2) show ?thesis by auto
next
  case EvApplicationScriptDone
  with assms show ?thesis by (auto simp: applicationScriptDone_def singleShot_def emit_def)
next
  case EvSourcesFinished
  with assms show ?thesis by (auto simp: sourcesFinished_def singleShot_def emit_def)
next
  case (EvTimerFired task)
  show ?thesis
  proof (cases task)
    case FlushQueue
    with EvTimerFired assms
      executeJSCall_fields(3)[of "''flushedQueue''" "[]" ProcessResultThenReady
        "s\<lparr>timers := remove1 task (timers s)\<rparr>" s']
    show ?thesis by (auto split: if_splits)
  next
    case RunApplicationScript
    with EvTimerFired assms show ?thesis
      by (auto simp: emit_def split: if_splits option.splits)
  qed
next
  case (EvCallCompleted e' cb doc)
  let ?s0 = "s\<lparr>calls := remove1 (e', cb) (calls s)\<rparr>"
  have le: "count_list (calls ?s0) (e, ProcessResultThenReady) \<le>
            count_list (calls s) (e, ProcessResultThenReady)"
    by (simp add: count_list_remove1)
  show ?thesis
  proof (cases "(e', cb) \<in> set (calls s)")
    case False
    with EvCallCompleted assms show ?thesis by simp
  next
    case True
    show ?thesis
    proof (cases cb)
      case ProcessResult
      with True EvCallCompleted assms(1) have "processResult doc ?s0 = Inr s'" by simp
      from processResult_fields(3)[OF this] le assms(2) show ?thesis by simp
    next
      case ProcessResultThenReady
      with True EvCallCompleted assms(1) obtain s1 where
        "processResult doc ?s0 = Inr s1" and "s' = setReady True s1"
        by (auto simp: and_then_def split: sum.splits)
      with processResult_fields(3)[of doc ?s0 s1] le assms(2) show ?thesis by simp
    qed
  qed
qed

lemma step_new_flush_timer:
  assumes "step ev s = Inr s'"
    and "count_list (timers s) FlushQueue < count_list (timers s') FlushQueue"
  shows "ev = EvApplicationScriptDone"
proof (cases ev)
  case (EvInit env)
  with assms init_fields(2)[of env s s'] show ?thesis by simp
next
  case (EvReload env)
  with assms reload_fields(2)[of env s s'] show ?thesis by simp
next
  case (EvEnqueueJSCall m mth args)
  with assms executeJSCall_fields(2)[of _ _ ProcessResult s s'] show ?thesis
    by (auto simp: enqueueJSCall_def)
next
  case (EvInvokeAndProcess mth args)
  with assms executeJSCall_fields(2)[of _ _ ProcessResult s s'] show ?thesis
    by (auto simp: invokeAndProcess_def)
next
  case EvApplicationScriptDone
  then show ?thesis by simp
next
  case EvSourcesFinished
  with assms show ?thesis by (auto simp: sourcesFinished_def singleShot_def emit_def)
next
  case (EvTimerFired task)
  let ?s0 = "s\<lparr>timers := remove1 task (timers s)\<rparr>"
  have le: "count_list (timers ?s0) FlushQueue \<le> count_list (timers s) FlushQueue"
    by (simp add: count_list_remove1)
  show ?thesis
  proof (cases "task \<in> set (timers s)")
    case False
    with EvTimerFired assms show ?thesis by simp
  next
    case True
    show ?thesis
    proof (cases task)
      case FlushQueue
      with True EvTimerFired assms(1)
      have "executeJSCall ''flushedQueue'' [] ProcessResultThenReady ?s0 = Inr s'" by simp
      from executeJSCall_fields(2)[OF this] le assms(2) show ?thesis by simp
    next
      case RunApplicationScript
      with True EvTimerFired assms(1) have "timers s' = timers ?s0"
        by (auto simp: emit_def split: option.splits)
      with le assms(2) show ?thesis by simp
    qed
  qed
next
  case (EvCallCompleted e' cb doc)
  let ?s0 = "s\<lparr>calls := remove1 (e', cb) (calls s)\<rparr>"
  show ?thesis
  proof (cases "(e', cb) \<in> set (calls s)")
    case False
    with EvCallCompleted assms show ?thesis by simp
  next
    case True
    show ?thesis
    proof (cases cb)
      case ProcessResult
      with True EvCallCompleted assms(1) have "processResult doc ?s0 = Inr s'" by simp
      from processResult_fields(2)[OF this] assms(2) show ?thesis by simp
    next
      case ProcessResultThenReady
      with True EvCallCompleted assms(1) obtain s1 where
        "processResult doc ?s0 = Inr s1" and "s' = setReady True s1"
        by (auto simp: and_then_def split: sum.splits)
      with processResult_fields(2)[of doc ?s0 s1] assms(2) show ?thesis by simp
    qed
  qed
qed

lemma step_ready_stays:
  assumes "step ev s = Inr s'" and "ready s" and "\<not> is_reload ev"
  shows "ready s'"
proof (cases ev)
  case (EvInit env)
  with assms init_fields(1)[of env s s'] show ?thesis by simp
next
  case (EvReload env)
  with assms show ?thesis by simp
next
  case (EvEnqueueJSCall m mth args)
  with assms executeJSCall_fields(1)[of _ _ ProcessResult s s'] show ?thesis
    by (simp add: enqueueJSCall_def)
next
  case (EvInvokeAndProcess mth args)
  with assms executeJSCall_fields(1)[of _ _ ProcessResult s s'] show ?thesis
    by (simp add: invokeAndProcess_def)
next
  case EvApplicationScriptDone
  with assms show ?thesis by (auto simp: applicationScriptDone_def singleShot_def emit_def)
next
  case EvSourcesFinished
  with assms show ?thesis by (auto simp: sourcesFinished_def singleShot_def emit_def)
next
  case (EvTimerFired task)
  show ?thesis
  proof (cases task)
    case FlushQueue
    with EvTimerFired assms
      executeJSCall_fields(1)[of "''flushedQueue''" "[]" ProcessResultThenReady
        "s\<lparr>timers := remove1 task (timers s)\<rparr>" s']
    show ?thesis by (auto split: if_splits)
  next
    case RunApplicationScript
    with EvTimerFired assms show ?thesis
      by (auto simp: emit_def split: if_splits option.splits)
  qed
next
  case (EvCallCompleted e cb doc)
  show ?thesis
  proof (cases cb)
    case ProcessResult
    with EvCallCompleted assms
      processResult_fields(1)[of doc "s\<lparr>calls := remove1 (e, cb) (calls s)\<rparr>" s']
    show ?thesis by (auto split: if_splits)
  next
    case ProcessResultThenReady
    with EvCallCompleted assms show ?thesis
      by (auto simp: and_then_def split: if_splits sum.splits)
  qed
qed

lemma ready_rises_none:
  "ready s \<Longrightarrow> filter is_reload evs = [] \<Longrightarrow> ready_rises evs s = 0"
proof (induction evs arbitrary: s)
  case Nil
  show ?case by simp
next
  case (Cons ev evs)
  from Cons.prems(2) have nr: "\<not> is_reload ev" and rest: "filter is_reload evs = []"
    by (auto split: if_splits)
  show ?case
  proof (cases "step ev s")
    case (Inl c)
    then show ?thesis by simp
  next
    case (Inr s')
    from step_ready_stays[OF Inr Cons.prems(1) nr] have "ready s'" .
    from Cons.IH[OF this rest] Inr Cons.prems(1) show ?thesis by simp
  qed
qed

lemma ready_rises_once:
  "filter is_reload evs = [] \<Longrightarrow> ready_rises evs s \<le> 1"
proof (induction evs arbitrary: s)
  case Nil
  show ?case by simp
next
  case (Cons ev evs)
  from Cons.prems have rest: "filter is_reload evs = []"
    by (auto split: if_splits)
  show ?case
  proof (cases "step ev s")
    case (Inl c)
    then show ?thesis by simp
  next
    case (Inr s')
    show ?thesis
    proof (cases "\<not> ready s \<and> ready s'")
      case True
      with ready_rises_none[of s' evs] rest Inr show ?thesis by simp
    next
      case False
      with Cons.IH[OF rest, of s'] Inr show ?thesis by auto
    qed
  qed
qed

lemma drain_run:
  assumes "executor s = Some e"
  shows "\<exists>s2. ready s2 = ready s \<and> modules s2 = modules s \<and>
           trace s2 = trace s @ [SingleShot 0 FlushQueue,
                                 ExecuteJSCall e ''flushedQueue'' [] ProcessResultThenReady] \<and>
           run [EvApplicationScriptDone, EvTimerFired FlushQueue,
                EvCallCompleted e ProcessResultThenReady doc] s =
             and_then (processResult doc s2) (\<lambda>s3. Inr (setReady True s3))"
proof -
  let ?s2 = "s\<lparr>timers := remove1 FlushQueue (timers s @ [FlushQueue]),
               trace := trace s @ [SingleShot 0 FlushQueue,
                                 ExecuteJSCall e ''flushedQueue'' [] ProcessResultThenReady],
               calls := remove1 (e, ProcessResultThenReady)
                          (calls s @ [(e, ProcessResultThenReady)])\<rparr>"
  have "run [EvApplicationScriptDone, EvTimerFired FlushQueue,
             EvCallCompleted e ProcessResultThenReady doc] s =
          and_then (processResult doc ?s2) (\<lambda>s3. Inr (setReady True s3))"
    using assms
    by (simp add: and_then_def applicationScriptDone_def singleShot_def emit_def
          executeJSCall_def split: sum.splits)
  then show ?thesis
    by (intro exI[of _ ?s2]) simp
qed

subsection \<open>The concrete bridges\<close>

lemma filter_loads_DeleteModule [simp]: "filter loads_source (map DeleteModule mds) = []"
  by (induction mds) auto

lemma example_env_executor [simp]:
  "metaType (example_env base addr) ''ReactNetExecutor*'' = 1024"
  "instantiate (example_env base addr) 1024 = NewExecutor (Executor ''ReactNetExecutor'' addr)"
  "netExecutor (example_env base addr) = Executor ''ReactNetExecutor'' (addr + 1)"
  "constructed_executor (example_env base addr) ''ReactNetExecutor'' =
     Executor ''ReactNetExecutor'' addr"
  "metaType (example_env base addr) ''Nope*'' = 0"
  "construct (example_env base addr) c = QObject c (Some (example_module base addr c))"
  by (simp_all add: example_env_def constructed_executor_def)

lemma scenario_fields [simp]:
  "executor scenario_bridge = Some (Executor ''ReactNetExecutor'' 1)"
  "executorName scenario_bridge = ''ReactNetExecutor''"
  "nam scenario_bridge = None"
  "ready scenario_bridge = False"
  "trace scenario_bridge = []"
  "bundleUrl scenario_bridge = []"
  "pluginsPath scenario_bridge = ''./plugins''"
  "modules scenario_bridge = [(0, Some moduleA), (1, Some moduleB)]"
  by (simp_all add: scenario_bridge_def new_bridge_def)

lemma class_index_nonneg: "0 \<le> class_index c xs"
  by (induction xs) auto

lemma example_collected_modules:
  "collected_modules (example_env base addr) s =
     map (\<lambda>c. QObject c (Some (example_module base addr c))) module_classes"
  by (simp add: collected_modules_def internalModules_def pluginModules_def module_classes_def
        example_env_def)

lemma example_assigned_ids:
  "k \<in> set (assigned_ids (collected_modules (example_env base addr) s)) \<Longrightarrow> base \<le> k"
  using class_index_nonneg
  by (auto simp: example_collected_modules assigned_ids_def List.map_filter_def
        example_module_def comp_def)

lemma example_ui_manager_id:
  "md_id (example_module base addr ''ReactUIManager'') = base + 17"
  by (simp add: example_module_def module_classes_def)

lemma example_registry_ui_manager:
  "lookup (registered (collected_modules (example_env base addr) s) reg) (base + 17) =
     Some (example_module base addr ''ReactUIManager'')"
proof -
  let ?ui = "QObject ''ReactUIManager'' (Some (example_module base addr ''ReactUIManager''))"
  let ?pre = "internalModules (example_env base addr) @
              fst (pluginModules (example_env base addr) s) @
              [construct (example_env base addr) ''ReactSourceCode'',
               construct (example_env base addr) ''ReactImageLoader'']"
  have c: "collected_modules (example_env base addr) s = ?pre @ [?ui]"
    by (simp add: collected_modules_def)
  have "map_of (registered (collected_modules (example_env base addr) s) reg)
          (md_id (example_module base addr ''ReactUIManager'')) =
        Some (Some (example_module base addr ''ReactUIManager''))"
    unfolding c by (rule map_of_registered_last) simp
  then show ?thesis
    by (simp add: lookup_def example_ui_manager_id)
qed

subsection \<open>Batches\<close>

text \<open>
  C3. For a batch whose three sequences have equal length, processing returns, and it adds
  one effect per entry, in index order: for an entry that resolves in the registry the
  batch started with, the invocation of the resolved method with the entry's own parameter
  list; for an entry whose module id or method index does not resolve, a report. A miss
  does not stop the entries after it. (What the invoked handler does in turn is outside
  the bridge.)
\<close>

theorem processResult_dispatches_in_order:
  assumes "length meths = length mids" and "length ps = length mids"
  shows "\<exists>s' es.
           processResult (DocArray (VList mids # VList meths # VList ps # rest)) s = Inr s' \<and>
           trace s' = trace s @ es \<and> length es = length mids \<and>
           (\<forall>i < length mids.
              case resolve (modules s) (toInt (mids ! i)) (toInt (meths ! i)) of
                Some (md, m) \<Rightarrow> es ! i = Invoke md m (toList (ps ! i))
              | None \<Rightarrow> reported (es ! i))"
proof -
  let ?es = "map (\<lambda>j. entry_effect (modules s) (mids ! j) (meths ! j) (ps ! j)) [0 ..< length mids]"
  have "\<And>j. j < length mids \<Longrightarrow> reads_in_range (modules s) mids meths ps j"
    using assms by (simp add: reads_in_range_lengths)
  from processResult_effects[OF this, where rest=rest]
  obtain reg' where
    p: "processResult (DocArray (VList mids # VList meths # VList ps # rest)) s =
          Inr (s\<lparr>modules := reg', trace := trace s @ ?es\<rparr>)"
    by blast
  have each: "\<forall>i < length mids.
              case resolve (modules s) (toInt (mids ! i)) (toInt (meths ! i)) of
                Some (md, m) \<Rightarrow> ?es ! i = Invoke md m (toList (ps ! i))
              | None \<Rightarrow> reported (?es ! i)"
    by (auto simp: resolve_def entry_effect_def split: option.splits)
  show ?thesis
    apply (rule exI[of _ "s\<lparr>modules := reg', trace := trace s @ ?es\<rparr>"])
    apply (rule exI[of _ ?es])
    using p each by simp
qed

theorem processResult_dispatches_in_order_witness:
  "length [VInt 1, VInt 0, VInt 5] = length [VInt 0, VInt 1, VInt 0] \<and>
   length [VList [], VList [VString ''x''], VList []] = length [VInt 0, VInt 1, VInt 0] \<and>
   (\<exists>s' es.
      processResult
        (DocArray [VList [VInt 0, VInt 1, VInt 0], VList [VInt 1, VInt 0, VInt 5],
                   VList [VList [], VList [VString ''x''], VList []]]) scenario_bridge = Inr s' \<and>
      trace s' = trace scenario_bridge @ es \<and> length es = 3 \<and>
      es ! 0 = Invoke moduleA (ModuleMethod ''a1'') [] \<and>
      es ! 1 = Invoke moduleB (ModuleMethod ''b0'') [VString ''x''] \<and>
      reported (es ! 2))"
proof -
  from processResult_dispatches_in_order[of "[VInt 1, VInt 0, VInt 5]" "[VInt 0, VInt 1, VInt 0]"
      "[VList [], VList [VString ''x''], VList []]" "[]" scenario_bridge]
  obtain s' es where
    p: "processResult
            (DocArray [VList [VInt 0, VInt 1, VInt 0], VList [VInt 1, VInt 0, VInt 5],
                       VList [VList [], VList [VString ''x''], VList []]]) scenario_bridge = Inr s'"
    and t: "trace s' = trace scenario_bridge @ es" and l: "length es = 3"
    and e: "\<forall>i < 3.
              case resolve (modules scenario_bridge) (toInt ([VInt 0, VInt 1, VInt 0] ! i))
                     (toInt ([VInt 1, VInt 0, VInt 5] ! i)) of
                Some (md, m) \<Rightarrow> es ! i = Invoke md m (toList ([VList [], VList [VString ''x''], VList []] ! i))
              | None \<Rightarrow> reported (es ! i)"
    by auto
  have r0: "resolve (modules scenario_bridge) 0 1 = Some (moduleA, ModuleMethod ''a1'')"
    by (simp add: resolve_def lookup_def scenario_bridge_def new_bridge_def method_of_def moduleA_def)
  have r1: "resolve (modules scenario_bridge) 1 0 = Some (moduleB, ModuleMethod ''b0'')"
    by (simp add: resolve_def lookup_def scenario_bridge_def new_bridge_def method_of_def moduleB_def)
  have r2: "resolve (modules scenario_bridge) 0 5 = None"
    by (simp add: resolve_def lookup_def scenario_bridge_def new_bridge_def method_of_def moduleA_def)
  from e[rule_format, of 0] r0 have e0: "es ! 0 = Invoke moduleA (ModuleMethod ''a1'') []" by simp
  from e[rule_format, of 1] r1 have e1: "es ! 1 = Invoke moduleB (ModuleMethod ''b0'') [VString ''x'']" by simp
  from e[rule_format, of 2] r2 have e2: "reported (es ! 2)" by simp
  from p t l e0 e1 e2 show ?thesis by auto
qed

text \<open>
  C2. Nothing compares the lengths of the three sequences. The batch
  \<open>[[0], [1, 0], [[], []]]\<close>, with one module id and two method indices, is not rejected:
  its entry is dispatched to \<open>A\<close>'s method 1 and nothing is reported.
\<close>

theorem processResult_mismatched_lengths_counterexample:
  "length [VInt 0] \<noteq> length [VInt 1, VInt 0] \<and>
   processResult (DocArray [VList [VInt 0], VList [VInt 1, VInt 0], VList [VList [], VList []]])
       scenario_bridge =
     Inr (scenario_bridge\<lparr>trace := [Invoke moduleA (ModuleMethod ''a1'') []]\<rparr>)"
proof -
  have "dispatch_loop [VInt 0] [VInt 1, VInt 0] [VList [], VList []] 0 scenario_bridge =
     Inr (scenario_bridge\<lparr>trace := [Invoke moduleA (ModuleMethod ''a1'') []]\<rparr>)"
    by (simp add: dispatch_loop.simps entry_defs scenario_defs)
  then show ?thesis
    by (simp add: batch_defs)
qed

text \<open>
  C2, as the code has it. When the method-index and the parameter sequences are at least
  as long as the module-id sequence, the batch is processed as the equal-length batch that
  cuts both to the module ids' length: processing returns, the surplus is never read, and
  the effects are exactly the entries' own (one per module id, in order), so none reports
  the mismatch.
\<close>

theorem processResult_ignores_surplus:
  assumes "length mids \<le> length meths" and "length mids \<le> length ps"
  shows "\<exists>s'. processResult (DocArray (VList mids # VList meths # VList ps # rest)) s = Inr s' \<and>
              processResult (DocArray [VList mids, VList (take (length mids) meths),
                                       VList (take (length mids) ps)]) s = Inr s' \<and>
              trace s' =
                trace s @ map (\<lambda>(mid, mth, p). entry_effect (modules s) mid mth p)
                            (zip mids (zip meths ps))"
proof -
  have "\<And>j. j < length mids \<Longrightarrow> reads_in_range (modules s) mids meths ps j"
    using assms by (simp add: reads_in_range_lengths)
  from processResult_effects[OF this, where rest=rest]
  obtain reg' where
    p: "processResult (DocArray (VList mids # VList meths # VList ps # rest)) s =
          Inr (s\<lparr>modules := reg',
                 trace := trace s @ map (\<lambda>j. entry_effect (modules s) (mids ! j) (meths ! j) (ps ! j))
                                       [0 ..< length mids]\<rparr>)"
    by blast
  have q: "processResult (DocArray [VList mids, VList (take (length mids) meths),
                                       VList (take (length mids) ps)]) s =
           processResult (DocArray (VList mids # VList meths # VList ps # rest)) s"
    by (simp add: batch_defs dispatch_loop_take)
  have z: "map (\<lambda>j. entry_effect (modules s) (mids ! j) (meths ! j) (ps ! j)) [0 ..< length mids] =
           map (\<lambda>(mid, mth, p). entry_effect (modules s) mid mth p) (zip mids (zip meths ps))"
    using assms by (intro nth_equalityI) auto
  show ?thesis using p q z by simp
qed

theorem processResult_ignores_surplus_witness:
  "length [VInt 0] \<le> length [VInt 1, VInt 0] \<and>
   length [VInt 0] \<le> length [VList [], VList []] \<and>
   (\<exists>s'. processResult (DocArray [VList [VInt 0], VList [VInt 1, VInt 0],
                                  VList [VList [], VList []]]) scenario_bridge = Inr s' \<and>
         processResult (DocArray [VList [VInt 0], VList [VInt 1], VList [VList []]])
           scenario_bridge = Inr s' \<and>
         trace s' = [Invoke moduleA (ModuleMethod ''a1'') []])"
  using processResult_ignores_surplus[of "[VInt 0]" "[VInt 1, VInt 0]" "[VList [], VList []]"
          "[]" scenario_bridge]
  by (simp add: entry_effect_def lookup_def method_of_def scenario_defs)

text \<open>
  C1. Looking an entry up is meant to leave the registry as it is. The code reads the
  registry with the non-const \<^verbatim>\<open>operator[]\<close>, so a module id that does not resolve
  gains a key of its own, holding a null pointer: in the scenario's registry the batch
  \<open>[[7], [0], [[]]]\<close> leaves a third key, 7. \<^verbatim>\<open>injectModules\<close>, which calls
  \<^verbatim>\<open>md->name()\<close> on every value, would go through that null pointer.
\<close>

theorem processResult_unresolved_id_grows_registry:
  "processResult (DocArray [VList [VInt 7], VList [VInt 0], VList [VList []]]) scenario_bridge =
     Inr (scenario_bridge\<lparr>modules := [(0, Some moduleA), (1, Some moduleB), (7, None)],
                          trace := [Critical [''Could not find referenced module'']]\<rparr>) \<and>
   injectModules (scenario_bridge\<lparr>modules := [(0, Some moduleA), (1, Some moduleB), (7, None)],
                          trace := [Critical [''Could not find referenced module'']]\<rparr>) =
     Inl NullDereference"
proof -
  have "dispatch_loop [VInt 7] [VInt 0] [VList []] 0 scenario_bridge =
     Inr (scenario_bridge\<lparr>modules := [(0, Some moduleA), (1, Some moduleB), (7, None)],
                          trace := [Critical [''Could not find referenced module'']]\<rparr>)"
    by (simp add: dispatch_loop.simps entry_defs scenario_defs)
  then show ?thesis
    by (simp add: batch_defs injectModules_def qmap_values_def scenario_defs)
qed

subsection \<open>Reload and executor setup\<close>

text \<open>
  C6. \<^verbatim>\<open>reload()\<close> ends with \<^verbatim>\<open>loadSource()\<close>, which returns at once when no network
  access manager is set. On the scenario's bridge (none set) a reload loads no source: no
  effect of the whole reload is a source load, and its last effect is the report
  \<open>No QNetworkAccessManager for loading sources\<close>.
\<close>

theorem reload_without_network_manager_counterexample:
  "case reload (example_env 18 3) scenario_bridge of
     Inl c \<Rightarrow> False
   | Inr s' \<Rightarrow>
       filter loads_source (trace s') = [] \<and>
       last (trace s') = Critical [''No QNetworkAccessManager for loading sources'']"
proof -
  have h1: "executor scenario_bridge = Some (Executor ''ReactNetExecutor'' 1)" by simp
  have h2: "metaType (example_env 18 3) (executorName scenario_bridge @ ''*'') \<noteq> UnknownType"
    by (simp add: UnknownType_def)
  have h3: "instantiate (example_env 18 3)
              (metaType (example_env 18 3) (executorName scenario_bridge @ ''*'')) \<noteq> NoMetaObject"
    by simp
  from reload_known[OF h1 h2 h3] obtain s' ws where
    "reload (example_env 18 3) scenario_bridge = Inr s'"
    "filter loads_source ws = []"
    "\<exists>cfg. trace s' = [DeleteLater (Executor ''ReactNetExecutor'' 1),
       ConnectExecutor (Executor ''ReactNetExecutor'' 3)
                         ''applicationScriptDone()'' ''applicationScriptDone()'',
       ExecutorInit (Executor ''ReactNetExecutor'' 3)] @
       map DeleteModule (List.map_filter id (qmap_values (modules scenario_bridge))) @ ws @
       [InjectJson (Executor ''ReactNetExecutor'' 3) ''__fbBatchedBridgeConfig''
                         (VMap [(''remoteModuleConfig'', VMap cfg)]),
        Critical [''No QNetworkAccessManager for loading sources'']]"
    by auto
  then show ?thesis by auto
qed

text \<open>
  C6, as the code has it. On a bridge that holds an executor, and whose executor name is a
  registered meta type with a meta object, \<^verbatim>\<open>reload()\<close> returns with: ready false (the
  change signalled first, when it was true); the old executor scheduled for deferred
  deletion and a newly constructed one in its place (the named one, or the default with a
  warning), connected and initialised; every module descriptor deleted and the registry
  replaced by the one registration builds from the newly collected objects alone; the
  config of that registry (under \<open>remoteModuleConfig\<close>, the info of each module under its
  name, in name order, the module with the larger id winning a shared name) injected into
  the new executor; and last the source load, when a network access manager is set, or
  else the report that there is none. Bundle URL, plugins path and executor name are as
  before.
\<close>

theorem reload_rebuilds:
  assumes "executor s = Some e"
    and "metaType env (executorName s @ ''*'') \<noteq> UnknownType"
    and "instantiate env (metaType env (executorName s @ ''*'')) \<noteq> NoMetaObject"
  shows "\<exists>s' ws cfg.
           reload env s = Inr s' \<and>
           \<not> ready s' \<and>
           executor s' = Some (constructed_executor env (executorName s)) \<and>
           modules s' = registered (collected_modules env s) [] \<and>
           bundleUrl s' = bundleUrl s \<and> pluginsPath s' = pluginsPath s \<and>
           executorName s' = executorName s \<and>
           trace s' =
             trace s @ (if ready s then [ReadyChanged] else []) @
             [DeleteLater e] @
             (case instantiate env (metaType env (executorName s @ ''*'')) of
                NotAnExecutor \<Rightarrow>
                  [Warning [''void ReactBridge::setupExecutor()'',
                                   ''Could not construct executor named'', executorName s,
                            ''constructing default (ReactNetExecutor)'']]
              | _ \<Rightarrow> []) @
             [ConnectExecutor (constructed_executor env (executorName s))
                ''applicationScriptDone()'' ''applicationScriptDone()'',
              ExecutorInit (constructed_executor env (executorName s))] @
             map DeleteModule (List.map_filter id (qmap_values (modules s))) @ ws @
             [InjectJson (constructed_executor env (executorName s))
                ''__fbBatchedBridgeConfig''
                         (VMap [(''remoteModuleConfig'', VMap cfg)]),
              case nam s of
                None \<Rightarrow> Critical [''No QNetworkAccessManager for loading sources'']
              | Some n \<Rightarrow> LoadSource (construct env ''ReactSourceCode'') n] \<and>
           filter loads_source ws = [] \<and>
        sorted_wrt (<) (map fst cfg) \<and>
        map_of cfg = map_of (rev (config_entries (registered (collected_modules env s) [])))"
proof -
  from reload_known[OF assms] obtain ws cfg where
    r: "reload env s =
             Inr (s\<lparr>ready := False,
                    executor := Some (constructed_executor env (executorName s)),
                    sourceCode := Some (construct env ''ReactSourceCode''),
                    imageLoader := Some (construct env ''ReactImageLoader''),
                    uiManager := Some (construct env ''ReactUIManager''),
                    modules := registered (collected_modules env s) [],
                    trace := trace s @ (if ready s then [ReadyChanged] else []) @
                      [DeleteLater e] @
                      (case instantiate env (metaType env (executorName s @ ''*'')) of
                         NotAnExecutor \<Rightarrow>
                           [Warning [''void ReactBridge::setupExecutor()'',
                                   ''Could not construct executor named'', executorName s,
                                     ''constructing default (ReactNetExecutor)'']]
                       | _ \<Rightarrow> []) @
                      [ConnectExecutor (constructed_executor env (executorName s))
                         ''applicationScriptDone()'' ''applicationScriptDone()'',
                       ExecutorInit (constructed_executor env (executorName s))] @
                      map DeleteModule (List.map_filter id (qmap_values (modules s))) @ ws @
                      [InjectJson (constructed_executor env (executorName s))
                         ''__fbBatchedBridgeConfig''
                         (VMap [(''remoteModuleConfig'', VMap cfg)]),
                       case nam s of
                         None \<Rightarrow> Critical [''No QNetworkAccessManager for loading sources'']
                       | Some n \<Rightarrow> LoadSource (construct env ''ReactSourceCode'') n]\<rparr>)"
      (is "_ = Inr ?s'")
    and wf: "filter loads_source ws = []"
    and wc: "sorted_wrt (<) (map fst cfg)"
      "map_of cfg = map_of (rev (config_entries (registered (collected_modules env s) [])))"
    by blast
  show ?thesis
    apply (rule exI[of _ ?s'], rule exI[of _ ws], rule exI[of _ cfg])
    using r wf wc by simp
qed

theorem reload_rebuilds_witness:
  "executor scenario_bridge = Some (Executor ''ReactNetExecutor'' 1) \<and>
   metaType (example_env 18 3) (executorName scenario_bridge @ ''*'') \<noteq> UnknownType \<and>
   instantiate (example_env 18 3) (metaType (example_env 18 3) (executorName scenario_bridge @ ''*''))
     \<noteq> NoMetaObject \<and>
   (\<exists>s' cfg.
         reload (example_env 18 3) scenario_bridge = Inr s' \<and> \<not> ready s' \<and>
         executor s' = Some (Executor ''ReactNetExecutor'' 3) \<and>
         modules s' = registered (collected_modules (example_env 18 3) scenario_bridge) [] \<and>
         bundleUrl s' = [] \<and> pluginsPath s' = ''./plugins'' \<and>
         executorName s' = ''ReactNetExecutor'' \<and>
         take 3 (trace s') =
           [DeleteLater (Executor ''ReactNetExecutor'' 1),
            ConnectExecutor (Executor ''ReactNetExecutor'' 3)
              ''applicationScriptDone()'' ''applicationScriptDone()'',
            ExecutorInit (Executor ''ReactNetExecutor'' 3)] \<and>
         drop (length (trace s') - 2) (trace s') =
           [InjectJson (Executor ''ReactNetExecutor'' 3) ''__fbBatchedBridgeConfig''
              (VMap [(''remoteModuleConfig'', VMap cfg)]),
            Critical [''No QNetworkAccessManager for loading sources'']] \<and>
         sorted_wrt (<) (map fst cfg) \<and>
         map_of cfg = map_of (rev (config_entries (modules s'))))"
proof -
  have h1: "executor scenario_bridge = Some (Executor ''ReactNetExecutor'' 1)" by simp
  have h2: "metaType (example_env 18 3) (executorName scenario_bridge @ ''*'') \<noteq> UnknownType"
    by (simp add: UnknownType_def)
  have h3: "instantiate (example_env 18 3)
              (metaType (example_env 18 3) (executorName scenario_bridge @ ''*'')) \<noteq> NoMetaObject"
    by simp
  from reload_rebuilds[OF h1 h2 h3] obtain s' ws cfg where
    r: "reload (example_env 18 3) scenario_bridge = Inr s'"
    and f: "\<not> ready s'" "executor s' = Some (Executor ''ReactNetExecutor'' 3)"
      "modules s' = registered (collected_modules (example_env 18 3) scenario_bridge) []"
      "bundleUrl s' = []" "pluginsPath s' = ''./plugins''" "executorName s' = ''ReactNetExecutor''"
    and t: "trace s' =
             [DeleteLater (Executor ''ReactNetExecutor'' 1),
              ConnectExecutor (Executor ''ReactNetExecutor'' 3)
                ''applicationScriptDone()'' ''applicationScriptDone()'',
              ExecutorInit (Executor ''ReactNetExecutor'' 3)] @
             (map DeleteModule (List.map_filter id (qmap_values (modules scenario_bridge))) @ ws) @
             [InjectJson (Executor ''ReactNetExecutor'' 3) ''__fbBatchedBridgeConfig''
                (VMap [(''remoteModuleConfig'', VMap cfg)]),
              Critical [''No QNetworkAccessManager for loading sources'']]"
    and c: "sorted_wrt (<) (map fst cfg)"
      "map_of cfg = map_of (rev (config_entries
                 (registered (collected_modules (example_env 18 3) scenario_bridge) [])))"
    by auto
  have t3: "take 3 (trace s') =
           [DeleteLater (Executor ''ReactNetExecutor'' 1),
            ConnectExecutor (Executor ''ReactNetExecutor'' 3)
              ''applicationScriptDone()'' ''applicationScriptDone()'',
            ExecutorInit (Executor ''ReactNetExecutor'' 3)]"
    unfolding t by simp
  have d2: "drop (length (trace s') - 2) (trace s') =
           [InjectJson (Executor ''ReactNetExecutor'' 3) ''__fbBatchedBridgeConfig''
              (VMap [(''remoteModuleConfig'', VMap cfg)]),
            Critical [''No QNetworkAccessManager for loading sources'']]"
    unfolding t by simp
  from h1 h2 h3 r f t3 d2 c show ?thesis by (intro conjI exI[of _ s'] exI[of _ cfg]) simp_all
qed

text \<open>
  C7. \<^verbatim>\<open>setupExecutor\<close> falls back to the default executor only when \<^verbatim>\<open>d->executor\<close>
  is null, and it assigns \<^verbatim>\<open>d->executor\<close> only when the name is a registered meta
  type. With the unregistered name \<open>Nope\<close>, \<^verbatim>\<open>init()\<close> on a new bridge takes the fallback
  (the default executor, at address 2). A later \<^verbatim>\<open>reload()\<close> schedules that executor for
  deletion and calls \<^verbatim>\<open>setupExecutor\<close> with the pointer still set: no warning, no
  default constructed; the executor just scheduled for deletion is connected and
  initialised again and stays the bridge's executor.
\<close>

theorem reload_unknown_executor_name_keeps_executor:
  "case init (example_env 0 1) ((new_bridge 0)\<lparr>executorName := ''Nope''\<rparr>) of
     Inl c \<Rightarrow> False
   | Inr s1 \<Rightarrow>
       executor s1 = Some (Executor ''ReactNetExecutor'' 2) \<and>
       (case reload (example_env 18 3) s1 of
          Inl c \<Rightarrow> False
        | Inr s2 \<Rightarrow>
            executor s2 = Some (Executor ''ReactNetExecutor'' 2) \<and>
            take 3 (drop (length (trace s1)) (trace s2)) =
              [DeleteLater (Executor ''ReactNetExecutor'' 2),
               ConnectExecutor (Executor ''ReactNetExecutor'' 2)
                 ''applicationScriptDone()'' ''applicationScriptDone()'',
               ExecutorInit (Executor ''ReactNetExecutor'' 2)])"
proof -
  let ?b = "(new_bridge 0)\<lparr>executorName := ''Nope''\<rparr>"
  let ?e = "Executor ''ReactNetExecutor'' 2"
  have u1: "metaType (example_env 0 1) (executorName ?b @ ''*'') = UnknownType"
    by (simp add: UnknownType_def new_bridge_def)
  have m: "None \<notin> snd ` set (modules ?b)" by (simp add: new_bridge_def)
  from setupExecutor_unknown[OF u1]
  obtain b1 where se: "setupExecutor (example_env 0 1) ?b = Inr b1"
    and b1: "executor b1 = Some ?e" "executorName b1 = ''Nope''" "ready b1 = False"
    by (simp add: new_bridge_def)
  from init_shape[OF m se] b1 obtain s1 where
    i: "init (example_env 0 1) ?b = Inr s1"
    and s1: "executor s1 = Some ?e" "executorName s1 = ''Nope''" "ready s1 = False"
    by auto
  have u2: "metaType (example_env 18 3) (executorName s1 @ ''*'') = UnknownType"
    by (simp add: UnknownType_def s1)
  from reload_unknown[OF s1(1) u2] s1 obtain s2 where
    r: "reload (example_env 18 3) s1 = Inr s2"
    and s2: "executor s2 = Some ?e"
       "\<exists>rest. trace s2 = trace s1 @
              [DeleteLater ?e,
               ConnectExecutor ?e ''applicationScriptDone()'' ''applicationScriptDone()'',
               ExecutorInit ?e] @ rest"
    by auto
  from i s1 r s2 show ?thesis by auto
qed

subsection \<open>Batches that outlive a reload\<close>

text \<open>
  C5. After \<^verbatim>\<open>reload()\<close> has rebuilt the registry, a batch that was produced against the
  old one (its method-index and parameter sequences at least as long as its module ids) is
  resolved against the rebuilt registry alone. For every module id that the rebuild did not
  assign (a pre-reload id that is not reassigned), the entry is the report
  \<open>Could not find referenced module\<close> and never an invocation on a module of the new
  registry.
\<close>

theorem straggler_batch_after_reload:
  assumes "reload env s = Inr s1"
    and "length mids \<le> length meths" and "length mids \<le> length ps"
  shows "\<exists>s2 es.
           processResult (DocArray (VList mids # VList meths # VList ps # rest)) s1 = Inr s2 \<and>
           trace s2 = trace s1 @ es \<and> length es = length mids \<and>
           (\<forall>i < length mids.
              es ! i = entry_effect (registered (collected_modules env s) [])
                         (mids ! i) (meths ! i) (ps ! i) \<and>
              (toInt (mids ! i) \<notin> set (assigned_ids (collected_modules env s)) \<longrightarrow>
                 es ! i = Critical [''Could not find referenced module''] \<and>
                 \<not> invoked (es ! i)))"
proof -
  let ?reg = "registered (collected_modules env s) []"
  let ?es = "map (\<lambda>j. entry_effect (modules s1) (mids ! j) (meths ! j) (ps ! j)) [0 ..< length mids]"
  have m: "modules s1 = ?reg" by (rule reload_modules[OF assms(1)])
  have "\<And>j. j < length mids \<Longrightarrow> reads_in_range (modules s1) mids meths ps j"
    using assms(2,3) by (simp add: reads_in_range_lengths)
  from processResult_effects[OF this, where rest=rest]
  obtain reg' where
    p: "processResult (DocArray (VList mids # VList meths # VList ps # rest)) s1 =
          Inr (s1\<lparr>modules := reg', trace := trace s1 @ ?es\<rparr>)"
    by blast
  have each: "\<forall>i < length mids.
              ?es ! i = entry_effect ?reg (mids ! i) (meths ! i) (ps ! i) \<and>
              (toInt (mids ! i) \<notin> set (assigned_ids (collected_modules env s)) \<longrightarrow>
                 ?es ! i = Critical [''Could not find referenced module''] \<and>
                 \<not> invoked (?es ! i))"
    using m by (auto simp: map_of_registered_other entry_effect_unassigned)
  show ?thesis
    apply (rule exI[of _ "s1\<lparr>modules := reg', trace := trace s1 @ ?es\<rparr>"])
    apply (rule exI[of _ ?es])
    using p each m by auto
qed

theorem straggler_batch_after_reload_witness:
  "lookup (modules scenario_bridge) 0 = Some moduleA \<and>
   (0::int) \<notin> set (assigned_ids (collected_modules (example_env 18 3) scenario_bridge)) \<and>
   (\<exists>s1 s2.
      reload (example_env 18 3) scenario_bridge = Inr s1 \<and>
      processResult (DocArray [VList [VInt 0], VList [VInt 0], VList [VList []]]) s1 = Inr s2 \<and>
      trace s2 = trace s1 @ [Critical [''Could not find referenced module'']] \<and>
      filter invoked (trace s2) = filter invoked (trace s1))"
proof -
  have pre: "lookup (modules scenario_bridge) 0 = Some moduleA"
    by (simp add: lookup_def)
  have h2: "metaType (example_env 18 3) (executorName scenario_bridge @ ''*'') \<noteq> UnknownType"
    by (simp add: UnknownType_def)
  have h3: "instantiate (example_env 18 3)
              (metaType (example_env 18 3) (executorName scenario_bridge @ ''*'')) \<noteq> NoMetaObject"
    by simp
  from reload_known[OF scenario_fields(1) h2 h3] obtain s1 where
    r: "reload (example_env 18 3) scenario_bridge = Inr s1"
    by blast
  have stale: "(0::int) \<notin> set (assigned_ids (collected_modules (example_env 18 3) scenario_bridge))"
    using example_assigned_ids[of 0 18 3 scenario_bridge] by auto
  from straggler_batch_after_reload[OF r, of "[VInt 0]" "[VInt 0]" "[VList []]" "[]"]
  obtain s2 es where
    p: "processResult (DocArray [VList [VInt 0], VList [VInt 0], VList [VList []]]) s1 = Inr s2"
    and t: "trace s2 = trace s1 @ es" and l: "length es = 1"
    and e: "toInt (VInt 0) \<notin> set (assigned_ids (collected_modules (example_env 18 3) scenario_bridge))
              \<longrightarrow> es ! 0 = Critical [''Could not find referenced module'']"
    by auto
  from l obtain x where es: "es = [x]" by (cases es) auto
  with e stale have es': "es = [Critical [''Could not find referenced module'']]" by simp
  with t have "filter invoked (trace s2) = filter invoked (trace s1)" by simp
  with pre stale r p t es' show ?thesis by blast
qed

text \<open>
  The condition on the id carries the result: the bridge keeps no mark of the registry a
  batch was produced against. In an environment that numbers its modules from 0 at every
  build, id 17 is the UI manager before and after the reload, and an entry for id 17 that
  arrives after the reload invokes the new registry's module.
\<close>

lemma reassigned_id_dispatched_example:
  "case init (example_env 0 1) (new_bridge 0) of
     Inl c \<Rightarrow> False
   | Inr s0 \<Rightarrow>
       lookup (modules s0) 17 = Some (example_module 0 1 ''ReactUIManager'') \<and>
       (case reload (example_env 0 3) s0 of
          Inl c \<Rightarrow> False
        | Inr s1 \<Rightarrow>
            (case processResult (DocArray [VList [VInt 17], VList [VInt 0], VList [VList []]]) s1 of
               Inl c \<Rightarrow> False
             | Inr s2 \<Rightarrow>
                 trace s2 =
                   trace s1 @
                   [Invoke (example_module 0 3 ''ReactUIManager'') (ModuleMethod ''m0'') []]))"
proof -
  let ?b = "new_bridge 0"
  have m: "None \<notin> snd ` set (modules ?b)" by (simp add: new_bridge_def)
  have n: "executorName ?b = ''ReactNetExecutor''" by (simp add: new_bridge_def)
  have h2: "metaType (example_env 0 1) (executorName ?b @ ''*'') \<noteq> UnknownType"
    by (simp add: n UnknownType_def)
  have h3: "instantiate (example_env 0 1) (metaType (example_env 0 1) (executorName ?b @ ''*''))
              \<noteq> NoMetaObject"
    by (simp add: n)
  from init_known[OF m h2 h3] obtain s0 where
    i: "init (example_env 0 1) ?b = Inr s0"
    and s0: "executor s0 = Some (Executor ''ReactNetExecutor'' 1)"
      "executorName s0 = ''ReactNetExecutor''"
      "modules s0 = registered (collected_modules (example_env 0 1) ?b) []"
    by (auto simp: n new_bridge_def)
  have l0: "lookup (modules s0) 17 = Some (example_module 0 1 ''ReactUIManager'')"
    using example_registry_ui_manager[of 0 1 ?b "[]"] by (simp add: s0)
  have k2: "metaType (example_env 0 3) (executorName s0 @ ''*'') \<noteq> UnknownType"
    by (simp add: s0 UnknownType_def)
  have k3: "instantiate (example_env 0 3) (metaType (example_env 0 3) (executorName s0 @ ''*''))
              \<noteq> NoMetaObject"
    by (simp add: s0)
  from reload_known[OF s0(1) k2 k3] obtain s1 where
    r: "reload (example_env 0 3) s0 = Inr s1"
    by blast
  have m1: "modules s1 = registered (collected_modules (example_env 0 3) s0) []"
    by (rule reload_modules[OF r])
  have l1: "lookup (modules s1) 17 = Some (example_module 0 3 ''ReactUIManager'')"
    using example_registry_ui_manager[of 0 3 s0 "[]"] by (simp add: m1)
  have "\<And>j. j < length [VInt 17] \<Longrightarrow>
          reads_in_range (modules s1) [VInt 17] [VInt 0] [VList []] j"
    by (simp add: reads_in_range_lengths)
  from processResult_effects[OF this, where rest="[]"] obtain reg' where
    p: "processResult (DocArray [VList [VInt 17], VList [VInt 0], VList [VList []]]) s1 =
          Inr (s1\<lparr>modules := reg',
                  trace := trace s1 @ [entry_effect (modules s1) (VInt 17) (VInt 0) (VList [])]\<rparr>)"
    by auto
  have ee: "entry_effect (modules s1) (VInt 17) (VInt 0) (VList []) =
              Invoke (example_module 0 3 ''ReactUIManager'') (ModuleMethod ''m0'') []"
    using l1 by (simp add: entry_effect_def method_of_def example_module_def)
  from i l0 r p ee show ?thesis by simp
qed

subsection \<open>Readiness\<close>

text \<open>
  C4. The drain that sets ready is not tied to the \<^verbatim>\<open>init()\<close>/\<^verbatim>\<open>reload()\<close> cycle that
  scheduled it. Take \<^verbatim>\<open>init()\<close>, then the application-script-done signal, then a
  \<^verbatim>\<open>reload()\<close> before the zero-delay timer fires. In the cycle \<^verbatim>\<open>init()\<close> began ready
  never became true. The reload leaves ready false, no call waiting and a new executor;
  its own application script has not run. The timer of the old cycle now fires, asks the
  new executor for the flushed queue, and the completion of that call sets ready: ready is
  true before the reload's cycle has had its post-execution drain.
\<close>

theorem ready_before_cycle_drain_counterexample:
  "(case run [EvInit (example_env 0 1), EvApplicationScriptDone, EvReload (example_env 18 3)]
           ((new_bridge 0)\<lparr>nam := Some 7\<rparr>) of
      Inl c \<Rightarrow> False
    | Inr s \<Rightarrow>
        \<not> ready s \<and> calls s = [] \<and> executor s = Some (Executor ''ReactNetExecutor'' 3)) \<and>
   ready_rises [EvInit (example_env 0 1), EvApplicationScriptDone, EvReload (example_env 18 3)]
     ((new_bridge 0)\<lparr>nam := Some 7\<rparr>) = 0 \<and>
   (case run [EvInit (example_env 0 1), EvApplicationScriptDone, EvReload (example_env 18 3),
              EvTimerFired FlushQueue,
              EvCallCompleted (Executor ''ReactNetExecutor'' 3) ProcessResultThenReady DocNull]
           ((new_bridge 0)\<lparr>nam := Some 7\<rparr>) of
      Inl c \<Rightarrow> False
    | Inr s \<Rightarrow> ready s)"
proof -
  let ?b = "(new_bridge 0)\<lparr>nam := Some 7\<rparr>"
  let ?e3 = "Executor ''ReactNetExecutor'' 3"
  have m: "None \<notin> snd ` set (modules ?b)" by (simp add: new_bridge_def)
  have n: "executorName ?b = ''ReactNetExecutor''" by (simp add: new_bridge_def)
  have h2: "metaType (example_env 0 1) (executorName ?b @ ''*'') \<noteq> UnknownType"
    by (simp add: n UnknownType_def)
  have h3: "instantiate (example_env 0 1) (metaType (example_env 0 1) (executorName ?b @ ''*''))
              \<noteq> NoMetaObject"
    by (simp add: n)
  from init_known[OF m h2 h3] obtain s1 where
    i: "init (example_env 0 1) ?b = Inr s1"
    and s1: "executor s1 = Some (Executor ''ReactNetExecutor'' 1)"
      "executorName s1 = ''ReactNetExecutor''" "\<not> ready s1" "timers s1 = []" "calls s1 = []"
    by (auto simp: n new_bridge_def)
  define s2 where "s2 = applicationScriptDone s1"
  have s2: "executor s2 = Some (Executor ''ReactNetExecutor'' 1)"
      "executorName s2 = ''ReactNetExecutor''" "\<not> ready s2" "timers s2 = [FlushQueue]"
      "calls s2 = []"
    using s1 by (simp_all add: s2_def applicationScriptDone_def singleShot_def emit_def)
  have k2: "metaType (example_env 18 3) (executorName s2 @ ''*'') \<noteq> UnknownType"
    by (simp add: s2 UnknownType_def)
  have k3: "instantiate (example_env 18 3) (metaType (example_env 18 3) (executorName s2 @ ''*''))
              \<noteq> NoMetaObject"
    by (simp add: s2)
  from reload_known[OF s2(1) k2 k3] obtain s3 where
    r: "reload (example_env 18 3) s2 = Inr s3"
    and s3: "executor s3 = Some ?e3" "\<not> ready s3" "timers s3 = [FlushQueue]" "calls s3 = []"
    using s2 by auto
  define s4 where
    "s4 = (emit (ExecuteJSCall ?e3 ''flushedQueue'' [] ProcessResultThenReady)
             (s3\<lparr>timers := []\<rparr>))\<lparr>calls := [(?e3, ProcessResultThenReady)]\<rparr>"
  have t: "step (EvTimerFired FlushQueue) s3 = Inr s4"
    using s3 by (simp add: s4_def executeJSCall_def)
  have s4: "\<not> ready s4" "calls s4 = [(?e3, ProcessResultThenReady)]"
    using s3 by (simp_all add: s4_def emit_def)
  have c: "step (EvCallCompleted ?e3 ProcessResultThenReady DocNull) s4 =
             Inr (setReady True (s4\<lparr>calls := []\<rparr>))"
    using s4 by (simp add: processResult_def and_then_def)
  have run3: "run [EvInit (example_env 0 1), EvApplicationScriptDone, EvReload (example_env 18 3)] ?b
                = Inr s3"
    using i r by (simp add: and_then_def s2_def)
  have rises: "ready_rises [EvInit (example_env 0 1), EvApplicationScriptDone,
                            EvReload (example_env 18 3)] ?b = 0"
    using i r s1 s2 s3 by (simp add: s2_def new_bridge_def)
  have run5: "run [EvInit (example_env 0 1), EvApplicationScriptDone, EvReload (example_env 18 3),
              EvTimerFired FlushQueue, EvCallCompleted ?e3 ProcessResultThenReady DocNull] ?b
                = Inr (setReady True (s4\<lparr>calls := []\<rparr>))"
    using i r t c by (simp add: and_then_def s2_def)
  show ?thesis
    unfolding run3 run5 rises using s3 by simp
qed

text \<open>
  C4, as the code has it. Ready goes from false to true in one place only: the completion
  callback of a \<open>flushedQueue\<close> call, after that callback has processed the returned
  document. Such a callback comes to wait only when the zero-delay timer of
  \<^verbatim>\<open>applicationScriptDone\<close> fires, and that timer is set only by the
  application-script-done signal. Between two reloads ready rises at most once. And on a
  bridge with an executor, the signal, the timer and the completed call in turn come to
  exactly this: one \<open>flushedQueue\<close> call with no arguments, the returned document
  processed, then ready set.
\<close>

theorem ready_only_after_drain:
  "(step ev s = Inr s' \<longrightarrow> \<not> ready s \<longrightarrow> ready s' \<longrightarrow>
      (\<exists>e doc s1. ev = EvCallCompleted e ProcessResultThenReady doc \<and>
         (e, ProcessResultThenReady) \<in> set (calls s) \<and>
         processResult doc (s\<lparr>calls := remove1 (e, ProcessResultThenReady) (calls s)\<rparr>) = Inr s1 \<and>
         s' = setReady True s1)) \<and>
   (step ev s = Inr s' \<longrightarrow>
      count_list (calls s) (e, ProcessResultThenReady) <
        count_list (calls s') (e, ProcessResultThenReady) \<longrightarrow>
      ev = EvTimerFired FlushQueue \<and> FlushQueue \<in> set (timers s) \<and> executor s = Some e) \<and>
   (step ev s = Inr s' \<longrightarrow>
      count_list (timers s) FlushQueue < count_list (timers s') FlushQueue \<longrightarrow>
      ev = EvApplicationScriptDone) \<and>
   (filter is_reload evs = [] \<longrightarrow> ready_rises evs s \<le> 1) \<and>
   (executor s = Some e \<longrightarrow>
      (\<exists>s2. ready s2 = ready s \<and> modules s2 = modules s \<and>
         trace s2 = trace s @ [SingleShot 0 FlushQueue,
                               ExecuteJSCall e ''flushedQueue'' [] ProcessResultThenReady] \<and>
         run [EvApplicationScriptDone, EvTimerFired FlushQueue,
              EvCallCompleted e ProcessResultThenReady doc] s =
           and_then (processResult doc s2) (\<lambda>s3. Inr (setReady True s3))))"
proof (intro conjI impI)
  assume "step ev s = Inr s'" "\<not> ready s" "ready s'"
  then show "\<exists>e doc s1. ev = EvCallCompleted e ProcessResultThenReady doc \<and>
         (e, ProcessResultThenReady) \<in> set (calls s) \<and>
         processResult doc (s\<lparr>calls := remove1 (e, ProcessResultThenReady) (calls s)\<rparr>) = Inr s1 \<and>
         s' = setReady True s1"
    by (rule step_ready_rise)
next
  assume a: "step ev s = Inr s'"
    "count_list (calls s) (e, ProcessResultThenReady) <
       count_list (calls s') (e, ProcessResultThenReady)"
  from step_new_drain_call[OF a]
  show "ev = EvTimerFired FlushQueue" "FlushQueue \<in> set (timers s)" "executor s = Some e"
    by simp_all
next
  assume "step ev s = Inr s'"
    "count_list (timers s) FlushQueue < count_list (timers s') FlushQueue"
  then show "ev = EvApplicationScriptDone" by (rule step_new_flush_timer)
next
  assume "filter is_reload evs = []"
  then show "ready_rises evs s \<le> 1" by (rule ready_rises_once)
next
  assume "executor s = Some e"
  then show "\<exists>s2. ready s2 = ready s \<and> modules s2 = modules s \<and>
         trace s2 = trace s @ [SingleShot 0 FlushQueue,
                               ExecuteJSCall e ''flushedQueue'' [] ProcessResultThenReady] \<and>
         run [EvApplicationScriptDone, EvTimerFired FlushQueue,
              EvCallCompleted e ProcessResultThenReady doc] s =
           and_then (processResult doc s2) (\<lambda>s3. Inr (setReady True s3))"
    by (rule drain_run)
qed


theorem ready_only_after_drain_witness:
  "filter is_reload
     [EvApplicationScriptDone, EvTimerFired FlushQueue,
      EvCallCompleted (Executor ''ReactNetExecutor'' 1) ProcessResultThenReady DocNull] = [] \<and>
   ready_rises
     [EvApplicationScriptDone, EvTimerFired FlushQueue,
      EvCallCompleted (Executor ''ReactNetExecutor'' 1) ProcessResultThenReady DocNull]
     scenario_bridge \<le> 1 \<and>
   executor scenario_bridge = Some (Executor ''ReactNetExecutor'' 1) \<and>
   (\<exists>s1 s2 s3.
      step EvApplicationScriptDone scenario_bridge = Inr s1 \<and>
      count_list (timers scenario_bridge) FlushQueue < count_list (timers s1) FlushQueue \<and>
      step (EvTimerFired FlushQueue) s1 = Inr s2 \<and>
      count_list (calls s1) (Executor ''ReactNetExecutor'' 1, ProcessResultThenReady) <
        count_list (calls s2) (Executor ''ReactNetExecutor'' 1, ProcessResultThenReady) \<and>
      step (EvCallCompleted (Executor ''ReactNetExecutor'' 1) ProcessResultThenReady DocNull) s2 =
        Inr s3 \<and>
      \<not> ready s2 \<and> ready s3 \<and>
      run [EvApplicationScriptDone, EvTimerFired FlushQueue,
           EvCallCompleted (Executor ''ReactNetExecutor'' 1) ProcessResultThenReady DocNull]
        scenario_bridge = Inr s3)"
proof -
  let ?ex = "Executor ''ReactNetExecutor'' 1"
  let ?evs = "[EvApplicationScriptDone, EvTimerFired FlushQueue,
               EvCallCompleted ?ex ProcessResultThenReady DocNull]"
  let ?s1 = "scenario_bridge\<lparr>trace := [SingleShot 0 FlushQueue], timers := [FlushQueue]\<rparr>"
  let ?s2 = "scenario_bridge\<lparr>trace := [SingleShot 0 FlushQueue], timers := [],
               trace := [SingleShot 0 FlushQueue,
                         ExecuteJSCall ?ex ''flushedQueue'' [] ProcessResultThenReady],
               calls := [(?ex, ProcessResultThenReady)]\<rparr>"
  let ?s3 = "setReady True (?s2\<lparr>calls := []\<rparr>)"
  have a: "step EvApplicationScriptDone scenario_bridge = Inr ?s1"
    by (simp add: applicationScriptDone_def singleShot_def emit_def scenario_bridge_def
          new_bridge_def)
  have b: "step (EvTimerFired FlushQueue) ?s1 = Inr ?s2"
    by (simp add: executeJSCall_def emit_def scenario_bridge_def new_bridge_def)
  have c: "step (EvCallCompleted ?ex ProcessResultThenReady DocNull) ?s2 = Inr ?s3"
    by (simp add: processResult_def and_then_def scenario_bridge_def new_bridge_def)
  have r: "run ?evs scenario_bridge = Inr ?s3"
    using a b c by (simp add: and_then_def)
  have f: "filter is_reload ?evs = []" by simp
  note inst = ready_only_after_drain[where evs = ?evs and doc = DocNull and e = ?ex]
  have flags: "\<not> ready ?s2" "ready ?s3"
    by (simp_all add: scenario_bridge_def new_bridge_def)
  have counts:
    "count_list (timers scenario_bridge) FlushQueue < count_list (timers ?s1) FlushQueue"
    "count_list (calls ?s1) (?ex, ProcessResultThenReady) <
       count_list (calls ?s2) (?ex, ProcessResultThenReady)"
    by (simp_all add: scenario_bridge_def new_bridge_def)
  have rises: "ready_rises ?evs scenario_bridge \<le> 1"
    by (rule inst[THEN conjunct2, THEN conjunct2, THEN conjunct2, THEN conjunct1, rule_format, OF f])
  have d1: "\<exists>e doc s1. EvCallCompleted ?ex ProcessResultThenReady DocNull =
                EvCallCompleted e ProcessResultThenReady doc \<and>
              (e, ProcessResultThenReady) \<in> set (calls ?s2) \<and>
              processResult doc (?s2\<lparr>calls := remove1 (e, ProcessResultThenReady) (calls ?s2)\<rparr>) =
                Inr s1 \<and>
              ?s3 = setReady True s1"
    by (rule inst[THEN conjunct1, rule_format, OF c flags])
  have d2: "EvTimerFired FlushQueue = EvTimerFired FlushQueue \<and>
            FlushQueue \<in> set (timers ?s1) \<and> executor ?s1 = Some ?ex"
    by (rule inst[THEN conjunct2, THEN conjunct1, rule_format, OF b counts(2)])
  have d3: "EvApplicationScriptDone = EvApplicationScriptDone"
    by (rule inst[THEN conjunct2, THEN conjunct2, THEN conjunct1, rule_format, OF a counts(1)])
  have steps:
    "step EvApplicationScriptDone scenario_bridge = Inr ?s1 \<and>
      count_list (timers scenario_bridge) FlushQueue < count_list (timers ?s1) FlushQueue \<and>
      step (EvTimerFired FlushQueue) ?s1 = Inr ?s2 \<and>
      count_list (calls ?s1) (?ex, ProcessResultThenReady) <
        count_list (calls ?s2) (?ex, ProcessResultThenReady) \<and>
      step (EvCallCompleted ?ex ProcessResultThenReady DocNull) ?s2 = Inr ?s3 \<and>
      \<not> ready ?s2 \<and> ready ?s3 \<and>
      run ?evs scenario_bridge = Inr ?s3"
    using a b c r flags counts d1 d2 d3 by (intro conjI)
  from f rises scenario_fields(1) steps show ?thesis by blast
qed


subsection \<open>Script calls\<close>

text \<open>
  C8. On a bridge that holds an executor, \<^verbatim>\<open>enqueueJSCall\<close> hands that executor one
  call: the entry point \<open>callFunctionReturnFlushedQueue\<close> with the argument list
  \<open>[module, method, args]\<close>. When the call completes, the returned document goes
  through \<open>processResult\<close>, the one routine every dispatch uses.
\<close>

theorem enqueueJSCall_entry_point:
  assumes "executor s = Some e"
  shows "\<exists>s1. enqueueJSCall module mth args s = Inr s1 \<and>
           s1 = s\<lparr>trace := trace s @
                     [ExecuteJSCall e ''callFunctionReturnFlushedQueue''
                        [VString module, VString mth, VList args] ProcessResult],
                   calls := calls s @ [(e, ProcessResult)]\<rparr> \<and>
           step (EvCallCompleted e ProcessResult doc) s1 =
             processResult doc (s1\<lparr>calls := remove1 (e, ProcessResult) (calls s1)\<rparr>)"
  using assms by (simp add: enqueueJSCall_def executeJSCall_def emit_def)

theorem enqueueJSCall_entry_point_witness:
  "\<exists>s1. enqueueJSCall ''RCTEventEmitter'' ''receiveEvent'' [VInt 3] scenario_bridge = Inr s1 \<and>
        trace s1 =
          [ExecuteJSCall (Executor ''ReactNetExecutor'' 1) ''callFunctionReturnFlushedQueue''
             [VString ''RCTEventEmitter'', VString ''receiveEvent'', VList [VInt 3]] ProcessResult] \<and>
        step (EvCallCompleted (Executor ''ReactNetExecutor'' 1) ProcessResult DocNull) s1 =
          Inr (s1\<lparr>calls := []\<rparr>)"
  using enqueueJSCall_entry_point[of scenario_bridge "Executor ''ReactNetExecutor'' 1"
          "''RCTEventEmitter''" "''receiveEvent''" "[VInt 3]" DocNull]
  by (simp add: scenario_bridge_def new_bridge_def processResult_def)

text \<open>
  C10. The drain callback sets ready whatever the drain document is worth: for a document
  that is not an array (null, or an object) \<open>processResult\<close> invokes nothing and leaves
  the registry alone, and the callback returns with ready true.
\<close>

theorem drain_sets_ready_without_batch:
  assumes "\<not> isArray doc"
  shows "\<exists>s'. run_callback ProcessResultThenReady doc s = Inr s' \<and> ready s' \<and>
              filter invoked (trace s') = filter invoked (trace s) \<and>
              modules s' = modules s"
  using assms by (cases doc) (simp_all add: processResult_def and_then_def emit_def)

theorem drain_sets_ready_without_batch_witness:
  "\<not> isArray DocNull \<and> \<not> isArray (DocObject [(''error'', VString ''x'')]) \<and>
   run_callback ProcessResultThenReady DocNull scenario_bridge =
     Inr (scenario_bridge\<lparr>ready := True, trace := [ReadyChanged]\<rparr>) \<and>
   run_callback ProcessResultThenReady (DocObject [(''error'', VString ''x'')]) scenario_bridge =
     Inr (scenario_bridge\<lparr>ready := True,
            trace := [Critical [''Returned document from executor in unexpected form''],
                      ReadyChanged]\<rparr>)"
  using drain_sets_ready_without_batch[of DocNull scenario_bridge]
        drain_sets_ready_without_batch[of "DocObject [(''error'', VString ''x'')]" scenario_bridge]
  by (simp add: processResult_def and_then_def emit_def setReady_def scenario_bridge_def new_bridge_def)

text \<open>
  C9. A null document means no calls: \<open>processResult\<close> returns at once, with no effect
  (nothing dispatched, nothing reported) and every field of the bridge as it was.
\<close>

theorem processResult_null: "processResult DocNull s = Inr s"
  by (simp add: processResult_def)

end
